theory Spec2Isabelle
  imports Complex_Main "HOL-Library.List_Lexorder" "HOL-Library.Char_ord"
begin

section \<open>Python values and exceptions\<close>

text \<open>
  The exception classes that the ingestion code can meet. A raise is the left injection
  of a sum; \<open>isinstance\<close> is the subclass relation of the classes listed
  (\<open>UnicodeDecodeError\<close> derives from \<open>ValueError\<close>, \<open>FileNotFoundError\<close>
  from \<open>OSError\<close>; Django's \<open>ValidationError\<close>, decimal's \<open>InvalidOperation\<close>
  and the model's \<open>DoesNotExist\<close> derive from none of the others).
\<close>

datatype exn =
    KeyError | ValueError | InvalidOperation | TypeError | ValidationError
  | DoesNotExist | MultipleObjectsReturned | UnicodeDecodeError
  | OSError | FileNotFoundError | Http404 | CommandError

definition isinstance :: "exn \<Rightarrow> exn \<Rightarrow> bool" where
  "isinstance e cls =
     (e = cls \<or> (e = UnicodeDecodeError \<and> cls = ValueError)
            \<or> (e = FileNotFoundError \<and> cls = OSError))"

text \<open>\<open>except (A, B, ...)\<close> catches an exception that is an instance of one of the classes.\<close>

definition caught :: "exn list \<Rightarrow> exn \<Rightarrow> bool" where
  "caught classes e = list_ex (isinstance e) classes"

text \<open>
  A value assigned to a \<open>DecimalField\<close> attribute: the command-line loader assigns a
  \<open>Decimal\<close>, the upload view assigns the raw string of the row. Decimals are the
  finite ones, as exact rationals.
\<close>

datatype pyval = Str string | Dec rat

fun truthy :: "pyval \<Rightarrow> bool" where
  "truthy (Str s) = (s \<noteq> [])"
| "truthy (Dec d) = (d \<noteq> 0)"

text \<open>\<open>a > b\<close>: between two decimals or two strings; a string against a decimal raises.\<close>

fun py_gt :: "pyval \<Rightarrow> pyval \<Rightarrow> exn + bool" where
  "py_gt (Dec a) (Dec b) = Inr (b < a)"
| "py_gt (Str a) (Str b) = Inr (b < a)"
| "py_gt (Str a) (Dec b) = Inl TypeError"
| "py_gt (Dec a) (Str b) = Inl TypeError"

type_synonym date = "nat \<times> nat \<times> nat"

type_synonym row = "string \<rightharpoonup> string"

definition getitem :: "row \<Rightarrow> string \<Rightarrow> exn + string" where
  "getitem r k = (case r k of None \<Rightarrow> Inl KeyError | Some v \<Rightarrow> Inr v)"

definition get_default :: "row \<Rightarrow> string \<Rightarrow> string \<Rightarrow> string" where
  "get_default r k d = (case r k of None \<Rightarrow> d | Some v \<Rightarrow> v)"

text \<open>Sequencing of expressions that may raise: the first exception wins.\<close>

definition bind_exn :: "exn + 'a \<Rightarrow> ('a \<Rightarrow> exn + 'b) \<Rightarrow> exn + 'b" where
  "bind_exn r f = (case r of Inl e \<Rightarrow> Inl e | Inr v \<Rightarrow> f v)"

definition or_raise :: "exn \<Rightarrow> 'a option \<Rightarrow> exn + 'a" where
  "or_raise e v = (case v of None \<Rightarrow> Inl e | Some x \<Rightarrow> Inr x)"

section \<open>Library functions taken as parameters\<close>

text \<open>
  The parsers and the reader of the Python and Django libraries are parameters of the
  model, so every theorem holds whatever they compute:
  \<^item> \<open>strptime s\<close> is \<open>datetime.strptime(s, '%Y-%m-%d').date()\<close>, \<open>None\<close> where it
    raises \<open>ValueError\<close>;
  \<^item> \<open>Decimal s\<close> is \<open>decimal.Decimal(s)\<close>, \<open>None\<close> where it raises
    \<open>InvalidOperation\<close> (strings that denote NaN or an infinity are outside the model);
  \<^item> \<open>DecimalValidator d\<close> is the check of \<open>max_digits=12, decimal_places=2\<close>;
  \<^item> \<open>DictReader d text\<close> is the list of rows of \<open>csv.DictReader\<close> over the text with
    delimiter \<open>d\<close>, each row a dictionary from the header's column names (rows with
    fewer fields than the header, whose missing cells are \<open>None\<close>, are outside the model).
\<close>

record lib =
  strptime :: "string \<Rightarrow> date option"
  Decimal :: "string \<Rightarrow> rat option"
  DecimalValidator :: "rat \<Rightarrow> bool"
  DictReader :: "char \<Rightarrow> string \<Rightarrow> row list"

section \<open>models.py\<close>

subsection \<open>Claim\<close>

text \<open>
  The fields of \<open>Claim\<close>. The amounts have type \<open>'a\<close>: \<open>pyval\<close> in an instance that
  has not been validated, \<open>rat\<close> in a stored claim.
\<close>

record 'a claim_rec =
  claim_id :: string
  patient_name :: string
  billed_amount :: 'a
  paid_amount :: 'a
  status :: string
  insurer_name :: string
  discharge_date :: date

type_synonym claim = "rat claim_rec"

definition STATUS_CHOICES :: "string list" where
  "STATUS_CHOICES = [''Paid'', ''Denied'', ''Under Review'']"

text \<open>
  \<open>Claim.clean\<close>: raises \<open>ValidationError\<close> when
  \<open>self.paid_amount and self.billed_amount and self.paid_amount > self.billed_amount\<close>.
\<close>

definition clean :: "pyval claim_rec \<Rightarrow> exn + unit" where
  "clean self =
     (if truthy (paid_amount self) \<and> truthy (billed_amount self) then
        (case py_gt (paid_amount self) (billed_amount self) of
           Inl e \<Rightarrow> Inl e
         | Inr gt \<Rightarrow> if gt then Inl ValidationError else Inr ())
      else Inr ())"

text \<open>
  Field cleaning, as \<open>Model.clean_fields\<close> runs it for the declared fields:
  \<open>DecimalField.to_python\<close> converts a string with \<open>Decimal\<close>, then the validators
  \<open>MinValueValidator(Decimal('0.00'))\<close> and the digits check run; a \<open>CharField\<close> must
  not be blank and not exceed \<open>max_length\<close>; \<open>status\<close> must be one of the choices.
\<close>

definition to_python :: "lib \<Rightarrow> pyval \<Rightarrow> rat option" where
  "to_python L v = (case v of Dec d \<Rightarrow> Some d | Str s \<Rightarrow> Decimal L s)"

definition clean_amount :: "lib \<Rightarrow> pyval \<Rightarrow> rat option" where
  "clean_amount L v =
     (case to_python L v of
        None \<Rightarrow> None
      | Some d \<Rightarrow> if 0 \<le> d \<and> DecimalValidator L d then Some d else None)"

definition clean_char :: "nat \<Rightarrow> string \<Rightarrow> bool" where
  "clean_char max_length v = (v \<noteq> [] \<and> length v \<le> max_length)"

definition clean_char_fields :: "'a claim_rec \<Rightarrow> bool" where
  "clean_char_fields self =
     (clean_char 20 (claim_id self) \<and> clean_char 200 (patient_name self) \<and>
      status self \<in> set STATUS_CHOICES \<and> clean_char 20 (status self) \<and>
      clean_char 100 (insurer_name self))"

text \<open>
  \<open>Model.full_clean\<close>: \<open>clean_fields\<close> replaces an attribute by its cleaned value where
  the field passes and leaves it as assigned where it fails, collecting the errors;
  \<open>clean\<close> runs next on the attributes as they then are, and its \<open>ValidationError\<close> is
  collected too, while any other exception of it propagates; \<open>ValidationError\<close> is raised
  at the end if anything was collected (so a \<open>ValidationError\<close> of \<open>clean\<close> leaves
  \<open>full_clean\<close> as one). (\<open>validate_unique\<close> cannot fail here: the
  instance is either the stored row of its \<open>claim_id\<close> or was looked up and not found.)
\<close>

definition full_clean :: "lib \<Rightarrow> pyval claim_rec \<Rightarrow> exn + claim" where
  "full_clean L self =
     (let b = clean_amount L (billed_amount self);
          p = clean_amount L (paid_amount self);
          self' = self\<lparr>billed_amount := (case b of Some d \<Rightarrow> Dec d | None \<Rightarrow> billed_amount self),
                       paid_amount := (case p of Some d \<Rightarrow> Dec d | None \<Rightarrow> paid_amount self)\<rparr>
      in case clean self' of
           Inl e \<Rightarrow> Inl e
         | Inr u \<Rightarrow>
             (case (b, p) of
                (Some bd, Some pd) \<Rightarrow>
                  if clean_char_fields self
                  then Inr \<lparr>claim_id = claim_id self, patient_name = patient_name self,
                            billed_amount = bd, paid_amount = pd, status = status self,
                            insurer_name = insurer_name self,
                            discharge_date = discharge_date self\<rparr>
                  else Inl ValidationError
              | _ \<Rightarrow> Inl ValidationError))"

text \<open>The derived properties of a claim. \<open>payment_percentage\<close> is a float in the source;
  here it is the exact quotient.\<close>

definition underpayment_amount :: "claim \<Rightarrow> rat" where
  "underpayment_amount self = billed_amount self - paid_amount self"

definition payment_percentage :: "claim \<Rightarrow> rat" where
  "payment_percentage self =
     (if billed_amount self > 0 then (paid_amount self / billed_amount self) * 100 else 0)"

definition is_denied :: "claim \<Rightarrow> bool" where
  "is_denied self = (status self = ''Denied'')"

definition is_underpaid :: "claim \<Rightarrow> bool" where
  "is_underpaid self = (payment_percentage self < 80)"

definition is_fully_paid :: "claim \<Rightarrow> bool" where
  "is_fully_paid self = (paid_amount self \<ge> billed_amount self)"


subsection \<open>ClaimDetail, ClaimFlag, DataUpload and the store\<close>

text \<open>
  A row of another table refers to its claim by the claim's \<open>claim_id\<close>, which is unique
  and never changed by an update. The notes of a \<open>DataUpload\<close> (\<open>upload_notes\<close>) hold
  the two counts of the text \<open>"Claims: n, Details: m"\<close>. Primary keys, timestamps and
  \<open>ClaimNote\<close> are left out: no operation modelled here reads them.
\<close>

record detail =
  d_claim :: string
  denial_reason :: string
  cpt_codes :: string

record flag =
  f_claim :: string
  f_user :: string
  flag_type :: string
  reason :: string
  is_active :: bool

record data_upload =
  upload_type :: string
  file_name :: string
  records_processed :: nat
  upload_user :: "string option"
  upload_notes :: "nat \<times> nat"

record db =
  claims :: "claim list"
  details :: "detail list"
  flags :: "flag list"
  uploads :: "data_upload list"

section \<open>The ORM calls the code makes\<close>

text \<open>\<open>Claim.objects.get(claim_id=k)\<close>.\<close>

definition Claim_get :: "db \<Rightarrow> string \<Rightarrow> exn + claim" where
  "Claim_get s k =
     (case filter (\<lambda>c. claim_id c = k) (claims s) of
        [] \<Rightarrow> Inl DoesNotExist
      | [c] \<Rightarrow> Inr c
      | c # c' # cs \<Rightarrow> Inl MultipleObjectsReturned)"

text \<open>
  \<open>Claim.objects.update_or_create(claim_id=k, defaults=...)\<close>, the instance carrying the
  key and the defaults. Both branches end in \<open>Claim.save\<close>, which runs \<open>full_clean\<close>
  before it writes; the result is the \<open>created\<close> flag.
\<close>

definition update_or_create :: "lib \<Rightarrow> db \<Rightarrow> pyval claim_rec \<Rightarrow> db \<times> (exn + bool)" where
  "update_or_create L s obj =
     (case Claim_get s (claim_id obj) of
        Inr old \<Rightarrow>
          (case full_clean L obj of
             Inl e \<Rightarrow> (s, Inl e)
           | Inr c \<Rightarrow>
               (s\<lparr>claims := map (\<lambda>x. if claim_id x = claim_id obj then c else x) (claims s)\<rparr>,
                Inr False))
      | Inl e \<Rightarrow>
          if e = DoesNotExist then
            (case full_clean L obj of
               Inl e' \<Rightarrow> (s, Inl e')
             | Inr c \<Rightarrow> (s\<lparr>claims := claims s @ [c]\<rparr>, Inr True))
          else (s, Inl e))"

text \<open>\<open>ClaimDetail.objects.update_or_create(claim=claim, defaults=...)\<close>; \<open>ClaimDetail\<close>
  does not validate on save.\<close>

definition Detail_update_or_create :: "db \<Rightarrow> detail \<Rightarrow> db \<times> (exn + bool)" where
  "Detail_update_or_create s d =
     (case filter (\<lambda>x. d_claim x = d_claim d) (details s) of
        [] \<Rightarrow> (s\<lparr>details := details s @ [d]\<rparr>, Inr True)
      | [old] \<Rightarrow>
          (s\<lparr>details := map (\<lambda>x. if d_claim x = d_claim d then d else x) (details s)\<rparr>,
           Inr False)
      | x # y # ys \<Rightarrow> (s, Inl MultipleObjectsReturned))"

text \<open>\<open>Claim.objects.all().delete()\<close>: the rows that refer to a deleted claim go with it
  (\<open>on_delete=CASCADE\<close>). \<open>ClaimDetail.objects.all().delete()\<close> empties the details.\<close>

definition Claim_delete_all :: "db \<Rightarrow> db" where
  "Claim_delete_all s =
     s\<lparr>claims := [],
       details := filter (\<lambda>d. d_claim d \<notin> set (map claim_id (claims s))) (details s),
       flags := filter (\<lambda>f. f_claim f \<notin> set (map claim_id (claims s))) (flags s)\<rparr>"

definition ClaimDetail_delete_all :: "db \<Rightarrow> db" where
  "ClaimDetail_delete_all s = s\<lparr>details := []\<rparr>"

text \<open>\<open>transaction.atomic()\<close>: an exception leaving the block undoes its writes.\<close>

definition atomic :: "(db \<Rightarrow> db \<times> (exn + 'a)) \<Rightarrow> db \<Rightarrow> db \<times> (exn + 'a)" where
  "atomic body s = (case body s of (s', Inl e) \<Rightarrow> (s, Inl e) | (s', Inr v) \<Rightarrow> (s', Inr v))"

section \<open>views.py: the dashboard\<close>

text \<open>
  The scalar statistics of \<open>DashboardView.get_context_data\<close> (the breakdowns by status
  and insurer and the lists of recent and top entries are left out).
  \<open>aggregate(Sum(...))\<close> is \<open>None\<close> over no rows; \<open>x or 0\<close> replaces \<open>None\<close> and
  zero by \<open>0\<close>.
\<close>

definition aggregate_Sum :: "rat list \<Rightarrow> rat option" where
  "aggregate_Sum xs = (if xs = [] then None else Some (sum_list xs))"

definition aggregate_Avg :: "rat list \<Rightarrow> rat option" where
  "aggregate_Avg xs = (if xs = [] then None else Some (sum_list xs / of_nat (length xs)))"

definition or_0 :: "rat option \<Rightarrow> rat" where
  "or_0 v = (case v of None \<Rightarrow> 0 | Some x \<Rightarrow> if x = 0 then 0 else x)"

record dashboard =
  total_claims :: nat
  total_billed :: rat
  total_paid :: rat
  total_underpayment :: rat
  avg_underpayment :: rat
  payment_rate :: rat
  flagged_claims :: nat

definition get_context_data :: "db \<Rightarrow> dashboard" where
  "get_context_data s =
     (let total_claims = length (claims s);
          total_billed = or_0 (aggregate_Sum (map billed_amount (claims s)));
          total_paid = or_0 (aggregate_Sum (map paid_amount (claims s)));
          total_underpayment = total_billed - total_paid;
          flagged_claims_count =
            length (filter (\<lambda>c. list_ex (\<lambda>f. f_claim f = claim_id c \<and> is_active f) (flags s))
                           (claims s));
          underpaid_claims =
            filter (\<lambda>u. u > 0) (map (\<lambda>c. billed_amount c - paid_amount c) (claims s));
          avg_underpayment = or_0 (aggregate_Avg underpaid_claims)
      in \<lparr>total_claims = total_claims, total_billed = total_billed, total_paid = total_paid,
          total_underpayment = total_underpayment, avg_underpayment = avg_underpayment,
          payment_rate = (if total_billed > 0 then total_paid / total_billed * 100 else 0),
          flagged_claims = flagged_claims_count\<rparr>)"

section \<open>management/commands/load_claims_data.py\<close>

text \<open>
  A loop over the rows of a reader, with the running count. The body returns the store
  and either the new count or the exception that leaves the loop.
\<close>

fun for_rows :: "(db \<Rightarrow> row \<Rightarrow> nat \<Rightarrow> db \<times> (exn + nat)) \<Rightarrow> row list \<Rightarrow> db \<Rightarrow> nat
    \<Rightarrow> db \<times> (exn + nat)" where
  "for_rows body [] s count = (s, Inr count)"
| "for_rows body (row # rows) s count =
     (case body s row count of
        (s', Inl e) \<Rightarrow> (s', Inl e)
      | (s', Inr count') \<Rightarrow> for_rows body rows s' count')"

text \<open>\<open>try: ... except classes: continue\<close> around a loop body: a caught exception
  leaves the count as it was.\<close>

definition try_except :: "db \<times> (exn + nat) \<Rightarrow> exn list \<Rightarrow> nat \<Rightarrow> db \<times> (exn + nat)" where
  "try_except r classes count =
     (case r of
        (s', Inl e) \<Rightarrow> if caught classes e then (s', Inr count) else (s', Inl e)
      | (s', Inr v) \<Rightarrow> (s', Inr v))"

text \<open>
  A file system maps a path to the file's text, \<open>Some None\<close> for a file whose bytes are
  not UTF-8 text. \<open>open(path, 'r', encoding='utf-8')\<close> and reading it through; the
  decoding error is raised here before the first row, where the source, reading in chunks,
  may raise it after some rows (\<open>handle\<close> undoes them with the rest):
\<close>

type_synonym filesystem = "string \<rightharpoonup> string option"

definition open_utf8 :: "filesystem \<Rightarrow> string \<Rightarrow> exn + string" where
  "open_utf8 fs path =
     (case fs path of
        None \<Rightarrow> Inl FileNotFoundError
      | Some None \<Rightarrow> Inl UnicodeDecodeError
      | Some (Some text) \<Rightarrow> Inr text)"

definition path_exists :: "filesystem \<Rightarrow> string \<Rightarrow> bool" where
  "path_exists fs path = (fs path \<noteq> None)"

definition basename :: "string \<Rightarrow> string" where
  "basename path = rev (takeWhile (\<lambda>c. c \<noteq> CHR ''/'') (rev path))"

text \<open>The arguments of \<open>update_or_create\<close> in \<open>_load_claims\<close>, in the order the source
  evaluates them.\<close>

definition cli_claim_args :: "lib \<Rightarrow> row \<Rightarrow> exn + pyval claim_rec" where
  "cli_claim_args L row =
     bind_exn (getitem row ''discharge_date'') (\<lambda>ds.
     bind_exn (or_raise ValueError (strptime L ds)) (\<lambda>discharge.
     bind_exn (getitem row ''billed_amount'') (\<lambda>bs.
     bind_exn (or_raise InvalidOperation (Decimal L bs)) (\<lambda>billed.
     bind_exn (getitem row ''paid_amount'') (\<lambda>ps.
     bind_exn (or_raise InvalidOperation (Decimal L ps)) (\<lambda>paid.
     bind_exn (getitem row ''id'') (\<lambda>cid.
     bind_exn (getitem row ''patient_name'') (\<lambda>pn.
     bind_exn (getitem row ''status'') (\<lambda>st.
     bind_exn (getitem row ''insurer_name'') (\<lambda>ins.
       Inr \<lparr>claim_id = cid, patient_name = pn, billed_amount = Dec billed,
            paid_amount = Dec paid, status = st, insurer_name = ins,
            discharge_date = discharge\<rparr>))))))))))"

text \<open>The body of the loop of \<open>_load_claims\<close>: only a created claim is counted.\<close>

definition load_claims_body :: "lib \<Rightarrow> db \<Rightarrow> row \<Rightarrow> nat \<Rightarrow> db \<times> (exn + nat)" where
  "load_claims_body L s row count =
     try_except
       (case cli_claim_args L row of
          Inl e \<Rightarrow> (s, Inl e)
        | Inr obj \<Rightarrow>
            (case update_or_create L s obj of
               (s', Inl e) \<Rightarrow> (s', Inl e)
             | (s', Inr created) \<Rightarrow> (s', Inr (if created then count + 1 else count))))
       [ValueError, InvalidOperation, KeyError] count"

definition load_claims :: "lib \<Rightarrow> filesystem \<Rightarrow> string \<Rightarrow> db \<Rightarrow> db \<times> (exn + nat)" where
  "load_claims L fs file_path s =
     (case open_utf8 fs file_path of
        Inl e \<Rightarrow> (s, Inl e)
      | Inr text \<Rightarrow> for_rows (load_claims_body L) (DictReader L (CHR ''|'') text) s 0)"

definition detail_of_row :: "claim \<Rightarrow> row \<Rightarrow> detail" where
  "detail_of_row c row =
     \<lparr>d_claim = claim_id c, denial_reason = get_default row ''denial_reason'' [],
      cpt_codes = get_default row ''cpt_codes'' []\<rparr>"

text \<open>The body of the loop of \<open>_load_claim_details\<close>: the inner \<open>try\<close> continues on
  \<open>Claim.DoesNotExist\<close>, the outer one on \<open>KeyError\<close>.\<close>

definition load_claim_details_body :: "db \<Rightarrow> row \<Rightarrow> nat \<Rightarrow> db \<times> (exn + nat)" where
  "load_claim_details_body s row count =
     try_except
       (case getitem row ''claim_id'' of
          Inl e \<Rightarrow> (s, Inl e)
        | Inr k \<Rightarrow>
            (case Claim_get s k of
               Inl e \<Rightarrow> if caught [DoesNotExist] e then (s, Inr count) else (s, Inl e)
             | Inr c \<Rightarrow>
                 (case Detail_update_or_create s (detail_of_row c row) of
                    (s', Inl e) \<Rightarrow> (s', Inl e)
                  | (s', Inr created) \<Rightarrow> (s', Inr (if created then count + 1 else count)))))
       [KeyError] count"

definition load_claim_details :: "lib \<Rightarrow> filesystem \<Rightarrow> string \<Rightarrow> db \<Rightarrow> db \<times> (exn + nat)" where
  "load_claim_details L fs file_path s =
     (case open_utf8 fs file_path of
        Inl e \<Rightarrow> (s, Inl e)
      | Inr text \<Rightarrow> for_rows load_claim_details_body (DictReader L (CHR ''|'') text) s 0)"

text \<open>The block under \<open>transaction.atomic()\<close> in \<open>handle\<close>; its result is the pair of
  counts of the success message.\<close>

definition handle_body :: "lib \<Rightarrow> filesystem \<Rightarrow> string \<Rightarrow> string \<Rightarrow> string \<Rightarrow> db
    \<Rightarrow> db \<times> (exn + nat \<times> nat)" where
  "handle_body L fs claims_file details_file mode s =
     (let s0 = (if mode = ''overwrite'' then ClaimDetail_delete_all (Claim_delete_all s) else s)
      in case load_claims L fs claims_file s0 of
           (s1, Inl e) \<Rightarrow> (s1, Inl e)
         | (s1, Inr claims_count) \<Rightarrow>
             (case load_claim_details L fs details_file s1 of
                (s2, Inl e) \<Rightarrow> (s2, Inl e)
              | (s2, Inr details_count) \<Rightarrow>
                  (s2\<lparr>uploads := uploads s2 @
                       [\<lparr>upload_type = (if mode = ''overwrite'' then ''overwrite'' else ''append''),
                         file_name = basename claims_file @ '', '' @ basename details_file,
                         records_processed = claims_count, upload_user = None,
                         upload_notes = (claims_count, details_count)\<rparr>]\<rparr>,
                   Inr (claims_count, details_count))))"

definition handle :: "lib \<Rightarrow> filesystem \<Rightarrow> string \<Rightarrow> string \<Rightarrow> string \<Rightarrow> db
    \<Rightarrow> db \<times> (exn + nat \<times> nat)" where
  "handle L fs claims_file details_file mode s =
     (if \<not> path_exists fs claims_file then (s, Inl CommandError)
      else if \<not> path_exists fs details_file then (s, Inl CommandError)
      else case atomic (handle_body L fs claims_file details_file mode) s of
             (s', Inl e) \<Rightarrow> (s', Inl CommandError)
           | (s', Inr r) \<Rightarrow> (s', Inr r))"

section \<open>views.py: the upload view\<close>

text \<open>
  \<open>str.splitlines\<close>, a character standing for a code point below 256: the line
  boundaries are LF, CR, CR LF, VT, FF, FS, GS, RS and NEL.
\<close>

definition line_boundary :: "char \<Rightarrow> bool" where
  "line_boundary c =
     (c \<in> set [CHR 0x0A, CHR 0x0D, CHR 0x0B, CHR 0x0C, CHR 0x1C, CHR 0x1D, CHR 0x1E, CHR 0x85])"

fun splitlines_from :: "string \<Rightarrow> string \<Rightarrow> string list" where
  "splitlines_from line [] = (if line = [] then [] else [line])"
| "splitlines_from line [c] =
     (if line_boundary c then [line] else [line @ [c]])"
| "splitlines_from line (c # c' # cs) =
     (if c = CHR 0x0D \<and> c' = CHR 0x0A then line # splitlines_from [] cs
      else if line_boundary c then line # splitlines_from [] (c' # cs)
      else splitlines_from (line @ [c]) (c' # cs))"

definition splitlines :: "string \<Rightarrow> string list" where
  "splitlines text = splitlines_from [] text"

definition detect_delimiter :: "string \<Rightarrow> char" where
  "detect_delimiter first_line = (if CHR ''|'' \<in> set first_line then CHR ''|'' else CHR '','')"

text \<open>An uploaded file: its name and \<open>file.read().decode('utf-8')\<close>, \<open>None\<close> where
  decoding raises.\<close>

record uploaded_file =
  uf_name :: string
  uf_content :: "string option"

record request =
  req_method :: string
  POST :: "string \<rightharpoonup> string"
  FILES :: "string \<rightharpoonup> uploaded_file"
  req_user :: string

definition web_claim_args :: "lib \<Rightarrow> row \<Rightarrow> exn + pyval claim_rec" where
  "web_claim_args L row =
     bind_exn (getitem row ''discharge_date'') (\<lambda>ds.
     bind_exn (or_raise ValueError (strptime L ds)) (\<lambda>discharge.
     bind_exn (getitem row ''id'') (\<lambda>cid.
     bind_exn (getitem row ''patient_name'') (\<lambda>pn.
     bind_exn (getitem row ''billed_amount'') (\<lambda>bs.
     bind_exn (getitem row ''paid_amount'') (\<lambda>ps.
     bind_exn (getitem row ''status'') (\<lambda>st.
     bind_exn (getitem row ''insurer_name'') (\<lambda>ins.
       Inr \<lparr>claim_id = cid, patient_name = pn, billed_amount = Str bs,
            paid_amount = Str ps, status = st, insurer_name = ins,
            discharge_date = discharge\<rparr>))))))))"

text \<open>The body of the loop of \<open>_process_claims_file\<close>: every row that
  \<open>update_or_create\<close> accepts is counted.\<close>

definition process_claims_body :: "lib \<Rightarrow> db \<Rightarrow> row \<Rightarrow> nat \<Rightarrow> db \<times> (exn + nat)" where
  "process_claims_body L s row count =
     try_except
       (case web_claim_args L row of
          Inl e \<Rightarrow> (s, Inl e)
        | Inr obj \<Rightarrow>
            (case update_or_create L s obj of
               (s', Inl e) \<Rightarrow> (s', Inl e)
             | (s', Inr created) \<Rightarrow> (s', Inr (count + 1))))
       [ValueError, KeyError] count"

definition process_claims_file :: "lib \<Rightarrow> uploaded_file \<Rightarrow> string \<Rightarrow> db \<Rightarrow> db \<times> (exn + nat)" where
  "process_claims_file L file mode s =
     (let s0 = (if mode = ''overwrite'' then Claim_delete_all s else s)
      in case uf_content file of
           None \<Rightarrow> (s0, Inl UnicodeDecodeError)
         | Some file_content \<Rightarrow>
             (case splitlines file_content of
                [] \<Rightarrow> (s0, Inr 0)
              | first_line # rest \<Rightarrow>
                  for_rows (process_claims_body L)
                    (DictReader L (detect_delimiter first_line) file_content) s0 0))"

definition process_details_body :: "db \<Rightarrow> row \<Rightarrow> nat \<Rightarrow> db \<times> (exn + nat)" where
  "process_details_body s row count =
     try_except
       (case getitem row ''claim_id'' of
          Inl e \<Rightarrow> (s, Inl e)
        | Inr k \<Rightarrow>
            (case Claim_get s k of
               Inl e \<Rightarrow> (s, Inl e)
             | Inr c \<Rightarrow>
                 (case Detail_update_or_create s (detail_of_row c row) of
                    (s', Inl e) \<Rightarrow> (s', Inl e)
                  | (s', Inr created) \<Rightarrow> (s', Inr (count + 1)))))
       [DoesNotExist, KeyError] count"

definition process_details_file :: "lib \<Rightarrow> uploaded_file \<Rightarrow> db \<Rightarrow> db \<times> (exn + nat)" where
  "process_details_file L file s =
     (case uf_content file of
        None \<Rightarrow> (s, Inl UnicodeDecodeError)
      | Some file_content \<Rightarrow>
          (case splitlines file_content of
             [] \<Rightarrow> (s, Inr 0)
           | first_line # rest \<Rightarrow>
               for_rows process_details_body
                 (DictReader L (detect_delimiter first_line) file_content) s 0))"

text \<open>\<open>DataUploadView.post\<close>: the store it leaves and the message it flashes. A file is
  falsy when it is missing from the request or has an empty name.\<close>

datatype message = Files_required | Error_uploading exn | Successfully_uploaded nat nat

definition post :: "lib \<Rightarrow> request \<Rightarrow> db \<Rightarrow> db \<times> message" where
  "post L request s =
     (case (FILES request ''claims_file'', FILES request ''details_file'') of
        (Some claims_file, Some details_file) \<Rightarrow>
          if uf_name claims_file = [] \<or> uf_name details_file = [] then (s, Files_required)
          else
            (let mode = get_default (POST request) ''mode'' ''append'' in
             case process_claims_file L claims_file mode s of
               (s1, Inl e) \<Rightarrow> (s1, Error_uploading e)
             | (s1, Inr claims_count) \<Rightarrow>
                 (case process_details_file L details_file s1 of
                    (s2, Inl e) \<Rightarrow> (s2, Error_uploading e)
                  | (s2, Inr details_count) \<Rightarrow>
                      (s2\<lparr>uploads := uploads s2 @
                           [\<lparr>upload_type = mode,
                             file_name = uf_name claims_file @ '', '' @ uf_name details_file,
                             records_processed = claims_count,
                             upload_user = Some (req_user request),
                             upload_notes = (claims_count, details_count)\<rparr>]\<rparr>,
                       Successfully_uploaded claims_count details_count)))
      | _ \<Rightarrow> (s, Files_required))"

section \<open>views.py: flags\<close>

definition get_object_or_404 :: "db \<Rightarrow> string \<Rightarrow> exn + claim" where
  "get_object_or_404 s k =
     (case Claim_get s k of
        Inl e \<Rightarrow> if e = DoesNotExist then Inl Http404 else Inl e
      | Inr c \<Rightarrow> Inr c)"

definition same_flag_key :: "flag \<Rightarrow> flag \<Rightarrow> bool" where
  "same_flag_key f g =
     (f_claim f = f_claim g \<and> f_user f = f_user g \<and> flag_type f = flag_type g)"

text \<open>\<open>ClaimFlag.objects.get_or_create(claim=..., user=..., flag_type=..., defaults=...)\<close>,
  the flag carrying the key and the defaults.\<close>

definition Flag_get_or_create :: "db \<Rightarrow> flag \<Rightarrow> db \<times> (exn + bool)" where
  "Flag_get_or_create s f =
     (case filter (same_flag_key f) (flags s) of
        [] \<Rightarrow> (s\<lparr>flags := flags s @ [f]\<rparr>, Inr True)
      | [old] \<Rightarrow> (s, Inr False)
      | x # y # ys \<Rightarrow> (s, Inl MultipleObjectsReturned))"

text \<open>\<open>add_flag_htmx\<close>: the store it leaves and the template it renders.\<close>

definition add_flag_htmx :: "request \<Rightarrow> string \<Rightarrow> db \<Rightarrow> db \<times> (exn + string)" where
  "add_flag_htmx request cid s =
     (if req_method request = ''POST'' then
        (case get_object_or_404 s cid of
           Inl e \<Rightarrow> (s, Inl e)
         | Inr c \<Rightarrow>
             (let flag_type = get_default (POST request) ''flag_type'' ''review'';
                  reason = get_default (POST request) ''reason'' [];
                  key = \<lparr>f_claim = claim_id c, f_user = req_user request,
                         flag_type = flag_type, reason = reason, is_active = True\<rparr>
              in case Flag_get_or_create s key of
                   (s1, Inl e) \<Rightarrow> (s1, Inl e)
                 | (s1, Inr created) \<Rightarrow>
                     (if \<not> created then
                        s1\<lparr>flags := map (\<lambda>f. if same_flag_key key f
                                               then f\<lparr>is_active := True, reason := reason\<rparr>
                                               else f) (flags s1)\<rparr>
                      else s1,
                      Inr ''claims/partials/notes_section.html'')))
      else
        (case get_object_or_404 s cid of
           Inl e \<Rightarrow> (s, Inl e)
         | Inr c \<Rightarrow> (s, Inr ''claims/partials/add_flag_form.html'')))"

section \<open>A concrete instance of the library\<close>

text \<open>
  For evaluating examples, an instance of the library parameters that computes what the
  libraries compute on plain inputs: dates written \<open>YYYY-MM-DD\<close> with all digits,
  amounts written as digits with an optional fraction, and text whose lines end in a
  newline and whose fields hold neither quotes nor the delimiter. No general theorem
  depends on it.
\<close>

fun digits_value :: "nat \<Rightarrow> string \<Rightarrow> nat option" where
  "digits_value acc [] = Some acc"
| "digits_value acc (c # cs) =
     (if CHR ''0'' \<le> c \<and> c \<le> CHR ''9''
      then digits_value (10 * acc + (of_char c - 48)) cs else None)"

definition number :: "string \<Rightarrow> nat option" where
  "number s = (if s = [] then None else digits_value 0 s)"

fun split_on :: "char \<Rightarrow> string \<Rightarrow> string \<Rightarrow> string list" where
  "split_on d field [] = [field]"
| "split_on d field (c # cs) =
     (if c = d then field # split_on d [] cs else split_on d (field @ [c]) cs)"

definition plain_Decimal :: "string \<Rightarrow> rat option" where
  "plain_Decimal s =
     (case split_on (CHR ''.'') [] s of
        [i] \<Rightarrow> map_option of_nat (number i)
      | [i, f] \<Rightarrow>
          (case (number i, number f) of
             (Some n, Some m) \<Rightarrow> Some (of_nat n + of_nat m / 10 ^ length f)
           | _ \<Rightarrow> None)
      | _ \<Rightarrow> None)"

definition days_in_month :: "nat \<Rightarrow> nat \<Rightarrow> nat" where
  "days_in_month y m =
     (if m = 2 then (if y mod 4 = 0 \<and> (y mod 100 \<noteq> 0 \<or> y mod 400 = 0) then 29 else 28)
      else if m \<in> set [4, 6, 9, 11] then 30 else 31)"

definition plain_strptime :: "string \<Rightarrow> date option" where
  "plain_strptime s =
     (case split_on (CHR ''-'') [] s of
        [ys, ms, ds] \<Rightarrow>
          (case (number ys, number ms, number ds) of
             (Some y, Some m, Some d) \<Rightarrow>
               if length ys = 4 \<and> length ms = 2 \<and> length ds = 2 \<and> 1 \<le> y \<and>
                  1 \<le> m \<and> m \<le> 12 \<and> 1 \<le> d \<and> d \<le> days_in_month y m
               then Some (y, m, d) else None
           | _ \<Rightarrow> None)
      | _ \<Rightarrow> None)"

definition plain_DecimalValidator :: "rat \<Rightarrow> bool" where
  "plain_DecimalValidator d = (of_int \<lfloor>d * 100\<rfloor> = d * 100 \<and> \<bar>d\<bar> < 10 ^ 10)"

definition plain_DictReader :: "char \<Rightarrow> string \<Rightarrow> row list" where
  "plain_DictReader d text =
     (case filter (\<lambda>l. l \<noteq> []) (split_on (CHR 0x0A) [] text) of
        [] \<Rightarrow> []
      | header # data \<Rightarrow>
          map (\<lambda>l. map_of (rev (zip (split_on d [] header) (split_on d [] l)))) data)"

definition plain :: lib where
  "plain = \<lparr>strptime = plain_strptime, Decimal = plain_Decimal,
            DecimalValidator = plain_DecimalValidator, DictReader = plain_DictReader\<rparr>"

definition empty_db :: db where
  "empty_db = \<lparr>claims = [], details = [], flags = [], uploads = []\<rparr>"

section \<open>Vocabulary of the proofs\<close>

text \<open>
  What a loader does to the table of claims, apart from the rest of the store.
  \<open>upsert c cs\<close> writes a validated claim: in place where a claim of its
  \<open>claim_id\<close> is stored, at the end otherwise. \<open>cli_row_claim\<close> and
  \<open>web_row_claim\<close> are what one row comes to in either loader before the store is
  touched: the validated claim, or the exception of the parsers or of \<open>full_clean\<close>.
\<close>

definition upsert :: "claim \<Rightarrow> claim list \<Rightarrow> claim list" where
  "upsert c cs =
     (if claim_id c \<in> set (map claim_id cs)
      then map (\<lambda>x. if claim_id x = claim_id c then c else x) cs
      else cs @ [c])"

definition cli_row_claim :: "lib \<Rightarrow> row \<Rightarrow> exn + claim" where
  "cli_row_claim L row = bind_exn (cli_claim_args L row) (full_clean L)"

definition web_row_claim :: "lib \<Rightarrow> row \<Rightarrow> exn + claim" where
  "web_row_claim L row = bind_exn (web_claim_args L row) (full_clean L)"

text \<open>
  \<open>run f classes cnt rows cs n\<close> is a loader's loop on the table \<open>cs\<close> alone: \<open>f\<close>
  is what a row comes to, \<open>classes\<close> the exceptions the loop skips, \<open>cnt\<close> the way it
  counts (\<open>count_created\<close> for the command, \<open>count_all\<close> for the upload view).
  \<open>accepted f classes rows\<close> lists the claims of the rows the loop accepts, up to the
  first exception that is not skipped. \<open>overwrite_by acc x\<close> is the last claim of
  \<open>acc\<close> with the \<open>claim_id\<close> of \<open>x\<close>, or \<open>x\<close>.
\<close>

definition count_created :: "bool \<Rightarrow> nat \<Rightarrow> nat" where
  "count_created created n = (if created then n + 1 else n)"

definition count_all :: "bool \<Rightarrow> nat \<Rightarrow> nat" where
  "count_all created n = n + 1"

fun run :: "(row \<Rightarrow> exn + claim) \<Rightarrow> exn list \<Rightarrow> (bool \<Rightarrow> nat \<Rightarrow> nat) \<Rightarrow> row list \<Rightarrow> claim list \<Rightarrow> nat
    \<Rightarrow> claim list \<times> (exn + nat)" where
  "run f cl cnt [] cs n = (cs, Inr n)"
| "run f cl cnt (r # rs) cs n =
     (case f r of
        Inl e \<Rightarrow> if caught cl e then run f cl cnt rs cs n else (cs, Inl e)
      | Inr c \<Rightarrow> run f cl cnt rs (upsert c cs) (cnt (claim_id c \<notin> set (map claim_id cs)) n))"

fun accepted :: "(row \<Rightarrow> exn + claim) \<Rightarrow> exn list \<Rightarrow> row list \<Rightarrow> claim list" where
  "accepted f cl [] = []"
| "accepted f cl (r # rs) =
     (case f r of
        Inl e \<Rightarrow> if caught cl e then accepted f cl rs else []
      | Inr c \<Rightarrow> c # accepted f cl rs)"

definition overwrite_by :: "claim list \<Rightarrow> claim \<Rightarrow> claim" where
  "overwrite_by acc x = foldl (\<lambda>y c. if claim_id y = claim_id c then c else y) x acc"

text \<open>The rows either loader reads from a source, the store after the purge of either
  path, and the loop of either loader on the table of claims.\<close>

definition cli_rows :: "lib \<Rightarrow> string \<Rightarrow> row list" where
  "cli_rows L src = DictReader L (CHR ''|'') src"

definition web_rows :: "lib \<Rightarrow> string \<Rightarrow> row list" where
  "web_rows L src =
     (case splitlines src of
        [] \<Rightarrow> []
      | first_line # rest \<Rightarrow> DictReader L (detect_delimiter first_line) src)"

definition purged :: "string \<Rightarrow> db \<Rightarrow> db" where
  "purged mode s =
     (if mode = ''overwrite'' then ClaimDetail_delete_all (Claim_delete_all s) else s)"

definition web_purged :: "string \<Rightarrow> db \<Rightarrow> db" where
  "web_purged mode s = (if mode = ''overwrite'' then Claim_delete_all s else s)"

definition cli_claims_effect :: "lib \<Rightarrow> string \<Rightarrow> claim list \<Rightarrow> claim list \<times> (exn + nat)" where
  "cli_claims_effect L src cs =
     run (cli_row_claim L) [ValueError, InvalidOperation, KeyError] count_created
       (cli_rows L src) cs 0"

definition web_claims_effect :: "lib \<Rightarrow> string \<Rightarrow> claim list \<Rightarrow> claim list \<times> (exn + nat)" where
  "web_claims_effect L src cs =
     run (web_row_claim L) [ValueError, KeyError] count_all (web_rows L src) cs 0"

definition post_claims_effect :: "lib \<Rightarrow> request \<Rightarrow> claim list \<Rightarrow> claim list" where
  "post_claims_effect L request cs =
     (case (FILES request ''claims_file'', FILES request ''details_file'') of
        (Some claims_file, Some details_file) \<Rightarrow>
          if uf_name claims_file = [] \<or> uf_name details_file = [] then cs
          else (case uf_content claims_file of
                  None \<Rightarrow> cs
                | Some src \<Rightarrow> fst (web_claims_effect L src cs))
      | _ \<Rightarrow> cs)"




text \<open>The key of the uniqueness constraint of \<open>ClaimFlag\<close>, and the flag that a POST to
  \<open>add_flag_htmx\<close> asks for.\<close>

definition flag_key :: "flag \<Rightarrow> string \<times> string \<times> string" where
  "flag_key f = (f_claim f, f_user f, flag_type f)"

definition posted_flag :: "request \<Rightarrow> string \<Rightarrow> flag" where
  "posted_flag request cid =
     \<lparr>f_claim = cid, f_user = req_user request,
      flag_type = get_default (POST request) ''flag_type'' ''review'',
      reason = get_default (POST request) ''reason'' [], is_active = True\<rparr>"

section \<open>Example data\<close>

text \<open>Sources in the format of the repository's files, and a store with one claim, its
  detail and an inactive flag.\<close>

definition claims_header :: string where
  "claims_header = ''id|patient_name|billed_amount|paid_amount|status|insurer_name|discharge_date''"

definition details_header :: string where
  "details_header = ''claim_id|denial_reason|cpt_codes''"

definition ex_claims :: string where
  "ex_claims = claims_header @ ''\<newline>C1|Jane Doe|100.00|60.00|Denied|Acme|2024-01-01\<newline>''"

definition ex_details :: string where
  "ex_details = details_header @ ''\<newline>C1|missing auth|99213,99214\<newline>''"

definition ex_claims_overpaid :: string where
  "ex_claims_overpaid = claims_header @
     ''\<newline>C1|Jane Doe|100.00|60.00|Denied|Acme|2024-01-01'' @
     ''\<newline>C2|John Roe|50.00|80.00|Paid|Acme|2024-01-02'' @
     ''\<newline>C3|Ann Poe|10.00|10.00|Paid|Acme|2024-01-03\<newline>''"

definition ex_claims_comma :: string where
  "ex_claims_comma =
     ''id,patient_name,billed_amount,paid_amount,status,insurer_name,discharge_date'' @
     ''\<newline>C1,Jane Doe,100.00,60.00,Denied,Acme,2024-01-01\<newline>''"

definition ex_claims_twice :: string where
  "ex_claims_twice = claims_header @
     ''\<newline>C1|Jane Doe|100.00|60.00|Denied|Acme|2024-01-01'' @
     ''\<newline>C1|Jane Doe|100.00|70.00|Denied|Acme|2024-01-01\<newline>''"

definition ex_details_orphan :: string where
  "ex_details_orphan = details_header @
     ''\<newline>C9|stray|99000'' @ ''\<newline>C1|missing auth|99213,99214\<newline>''"

definition ex_fs :: filesystem where
  "ex_fs = [''claims.csv'' \<mapsto> Some ex_claims, ''details.csv'' \<mapsto> Some ex_details,
            ''overpaid.csv'' \<mapsto> Some ex_claims_overpaid,
            ''comma.csv'' \<mapsto> Some ex_claims_comma,
            ''twice.csv'' \<mapsto> Some ex_claims_twice,
            ''orphan.csv'' \<mapsto> Some ex_details_orphan,
            ''empty.csv'' \<mapsto> Some [],
            ''binary.csv'' \<mapsto> None]"

definition ex_upload :: "string \<Rightarrow> string option \<Rightarrow> string option \<Rightarrow> request" where
  "ex_upload mode claims_text details_text =
     \<lparr>req_method = ''POST'', POST = [''mode'' \<mapsto> mode],
      FILES = [''claims_file'' \<mapsto> \<lparr>uf_name = ''claims.csv'', uf_content = claims_text\<rparr>,
               ''details_file'' \<mapsto> \<lparr>uf_name = ''details.csv'', uf_content = details_text\<rparr>],
      req_user = ''analyst''\<rparr>"

definition ex_claim :: "rat \<Rightarrow> claim" where
  "ex_claim paid =
     \<lparr>claim_id = ''C1'', patient_name = ''Jane Doe'', billed_amount = 100, paid_amount = paid,
      status = ''Denied'', insurer_name = ''Acme'', discharge_date = (2024, 1, 1)\<rparr>"

definition ex_detail :: detail where
  "ex_detail = \<lparr>d_claim = ''C1'', denial_reason = ''missing auth'', cpt_codes = ''99213,99214''\<rparr>"

definition ex_db :: db where
  "ex_db = \<lparr>claims = [ex_claim 50],
            details = [\<lparr>d_claim = ''C1'', denial_reason = ''old'', cpt_codes = ''1''\<rparr>],
            flags = [\<lparr>f_claim = ''C1'', f_user = ''analyst'', flag_type = ''review'',
                      reason = ''check'', is_active = False\<rparr>],
            uploads = []\<rparr>"

definition ex_flag_request :: "string \<Rightarrow> string \<Rightarrow> request" where
  "ex_flag_request ftype why =
     \<lparr>req_method = ''POST'', POST = [''flag_type'' \<mapsto> ftype, ''reason'' \<mapsto> why],
      FILES = Map.empty, req_user = ''analyst''\<rparr>"

text \<open>The store after the example sources are imported into the empty store, by the
  command and by the upload view.\<close>

definition ex_loaded :: db where
  "ex_loaded =
     \<lparr>claims = [ex_claim 60], details = [ex_detail], flags = [],
      uploads = [\<lparr>upload_type = ''append'', file_name = ''claims.csv, details.csv'',
                  records_processed = 1, upload_user = None, upload_notes = (1, 1)\<rparr>]\<rparr>"

definition ex_uploaded :: db where
  "ex_uploaded =
     \<lparr>claims = [ex_claim 60], details = [ex_detail], flags = [],
      uploads = [\<lparr>upload_type = ''append'', file_name = ''claims.csv, details.csv'',
                  records_processed = 1, upload_user = Some ''analyst'',
                  upload_notes = (1, 1)\<rparr>]\<rparr>"

section \<open>Evaluating the examples\<close>

lemmas ex_defs = claims_header_def details_header_def ex_claims_def ex_details_def
  ex_claims_overpaid_def ex_claims_comma_def ex_claims_twice_def ex_details_orphan_def
  ex_fs_def ex_upload_def ex_claim_def ex_db_def empty_db_def ex_detail_def ex_flag_request_def

lemmas plain_defs = plain_def plain_DictReader_def plain_strptime_def plain_Decimal_def
  plain_DecimalValidator_def number_def days_in_month_def

lemmas code_defs = load_claims_def load_claims_body_def cli_claim_args_def web_claim_args_def
  bind_exn_def or_raise_def getitem_def get_default_def try_except_def caught_def isinstance_def
  update_or_create_def Claim_get_def full_clean_def clean_def clean_amount_def to_python_def
  clean_char_fields_def clean_char_def STATUS_CHOICES_def open_utf8_def Let_def
  load_claim_details_def load_claim_details_body_def detail_of_row_def Detail_update_or_create_def
  handle_def handle_body_def atomic_def path_exists_def basename_def
  Claim_delete_all_def ClaimDetail_delete_all_def
  process_claims_file_def process_claims_body_def process_details_file_def process_details_body_def
  post_def splitlines_def detect_delimiter_def line_boundary_def

section \<open>Derived fields of a claim\<close>

lemma or_0_Sum: "or_0 (aggregate_Sum xs) = sum_list xs"
  by (simp add: or_0_def aggregate_Sum_def)

lemma sum_list_underpayment:
  "sum_list (map underpayment_amount cs) =
   sum_list (map billed_amount cs) - sum_list (map paid_amount cs)"
  by (induction cs) (simp_all add: underpayment_amount_def)



section \<open>Dashboard aggregates\<close>

text \<open>
  C8. For every store, the dashboard's total billed minus its total paid equals its
  total underpayment, which is also the sum of the claims' underpayment amounts.
\<close>

theorem dashboard_underpayment_identity:
  "total_billed (get_context_data s) - total_paid (get_context_data s) =
     total_underpayment (get_context_data s) \<and>
   total_underpayment (get_context_data s) = sum_list (map underpayment_amount (claims s))"
  by (simp add: get_context_data_def Let_def or_0_Sum sum_list_underpayment)

section \<open>Writing a claim by its key\<close>

lemma filter_key_absent: "k \<notin> set (map f xs) \<Longrightarrow> filter (\<lambda>x. f x = k) xs = []"
  by (induction xs) auto

lemma filter_key_present:
  "distinct (map f xs) \<Longrightarrow> k \<in> set (map f xs) \<Longrightarrow> \<exists>x. filter (\<lambda>x. f x = k) xs = [x] \<and> f x = k"
proof (induction xs)
  case Nil
  then show ?case by simp
next
  case (Cons a xs)
  show ?case
  proof (cases "f a = k")
    case True
    with Cons.prems have "k \<notin> set (map f xs)" by auto
    then have "filter (\<lambda>x. f x = k) xs = []" by (rule filter_key_absent)
    with True show ?thesis by simp
  next
    case False
    with Cons show ?thesis by auto
  qed
qed

lemma Claim_get_absent:
  "k \<notin> set (map claim_id (claims s)) \<Longrightarrow> Claim_get s k = Inl DoesNotExist"
  by (simp add: Claim_get_def filter_key_absent)

lemma Claim_get_present:
  assumes "distinct (map claim_id (claims s))" "k \<in> set (map claim_id (claims s))"
  shows "\<exists>c. Claim_get s k = Inr c \<and> claim_id c = k"
proof -
  from filter_key_present [OF assms] obtain x where
    "filter (\<lambda>x. claim_id x = k) (claims s) = [x]" "claim_id x = k" by blast
  then show ?thesis by (simp add: Claim_get_def)
qed

lemma full_clean_claim_id: "full_clean L obj = Inr c \<Longrightarrow> claim_id c = claim_id obj"
  by (auto simp: full_clean_def Let_def split: sum.splits option.splits if_splits)

lemma update_or_create_distinct:
  assumes "distinct (map claim_id (claims s))"
  shows "update_or_create L s obj =
    (case full_clean L obj of
       Inl e \<Rightarrow> (s, Inl e)
     | Inr c \<Rightarrow> (s\<lparr>claims := upsert c (claims s)\<rparr>,
                 Inr (claim_id c \<notin> set (map claim_id (claims s)))))"
proof (cases "claim_id obj \<in> set (map claim_id (claims s))")
  case True
  from Claim_get_present [OF assms True] obtain old where
    "Claim_get s (claim_id obj) = Inr old" by blast
  with True show ?thesis
    by (auto simp: update_or_create_def upsert_def full_clean_claim_id split: sum.splits)
next
  case False
  then have "Claim_get s (claim_id obj) = Inl DoesNotExist" by (rule Claim_get_absent)
  with False show ?thesis
    by (auto simp: update_or_create_def upsert_def full_clean_claim_id split: sum.splits)
qed

lemma upsert_ids:
  "claim_id ` set (upsert c cs) = insert (claim_id c) (claim_id ` set cs)"
  by (auto simp: upsert_def)

lemma map_claim_id_update:
  "claim_id c = k \<Longrightarrow> map (\<lambda>x. claim_id (if claim_id x = k then c else x)) cs = map claim_id cs"
  by (induction cs) auto

lemma upsert_map_ids:
  "claim_id c \<in> set (map claim_id cs) \<Longrightarrow> map claim_id (upsert c cs) = map claim_id cs"
  by (simp add: upsert_def comp_def map_claim_id_update)

lemma upsert_distinct:
  "distinct (map claim_id cs) \<Longrightarrow> distinct (map claim_id (upsert c cs))"
  by (cases "claim_id c \<in> set (map claim_id cs)") (simp_all add: upsert_map_ids, simp add: upsert_def)

lemma overwrite_by_id: "claim_id (overwrite_by acc x) = claim_id x"
  unfolding overwrite_by_def by (induction acc arbitrary: x) auto

lemma foldl_upsert_present:
  "set (map claim_id acc) \<subseteq> set (map claim_id cs) \<Longrightarrow>
   foldl (\<lambda>cs c. upsert c cs) cs acc = map (overwrite_by acc) cs"
proof (induction acc arbitrary: cs)
  case Nil
  then show ?case by (simp add: overwrite_by_def)
next
  case (Cons c acc)
  from Cons.prems have in_cs: "claim_id c \<in> set (map claim_id cs)" by simp
  then have u: "upsert c cs = map (\<lambda>x. if claim_id x = claim_id c then c else x) cs"
    by (simp add: upsert_def)
  have "set (map claim_id acc) \<subseteq> set (map claim_id (upsert c cs))"
    using Cons.prems by (auto simp: upsert_ids)
  from Cons.IH [OF this] show ?case
    by (simp add: u overwrite_by_def comp_def)
qed

lemma foldl_upsert_ids:
  "claim_id ` set (foldl (\<lambda>cs c. upsert c cs) cs acc) =
   claim_id ` set cs \<union> claim_id ` set acc"
  by (induction acc arbitrary: cs) (simp_all add: upsert_ids)

lemma upsert_member:
  "x \<in> set (upsert c t) \<Longrightarrow> x = c \<or> (x \<in> set t \<and> claim_id x \<noteq> claim_id c)"
  by (auto simp: upsert_def image_iff split: if_splits)

lemma foldl_upsert_fixed:
  "x \<in> set (foldl (\<lambda>cs c. upsert c cs) cs acc) \<Longrightarrow> overwrite_by acc x = x"
proof (induction acc arbitrary: x rule: rev_induct)
  case Nil
  then show ?case by (simp add: overwrite_by_def)
next
  case (snoc c acc)
  let ?t = "foldl (\<lambda>cs c. upsert c cs) cs acc"
  from snoc.prems have mem: "x \<in> set (upsert c ?t)" by simp
  have step: "overwrite_by (acc @ [c]) y =
      (if claim_id (overwrite_by acc y) = claim_id c then c else overwrite_by acc y)" for y
    by (simp add: overwrite_by_def)
  show ?case
  proof (cases "x = c")
    case True
    then show ?thesis by (simp add: step overwrite_by_id)
  next
    case False
    with upsert_member [OF mem] have "x \<in> set ?t \<and> claim_id x \<noteq> claim_id c"
      by blast
    with snoc.IH [of x] show ?thesis by (simp add: step overwrite_by_id)
  qed
qed

lemma foldl_upsert_idem:
  "foldl (\<lambda>cs c. upsert c cs) (foldl (\<lambda>cs c. upsert c cs) cs acc) acc =
   foldl (\<lambda>cs c. upsert c cs) cs acc"
proof -
  let ?t = "foldl (\<lambda>cs c. upsert c cs) cs acc"
  have "set (map claim_id acc) \<subseteq> set (map claim_id ?t)"
    by (simp add: foldl_upsert_ids)
  then have "foldl (\<lambda>cs c. upsert c cs) ?t acc = map (overwrite_by acc) ?t"
    by (rule foldl_upsert_present)
  also have "\<dots> = ?t"
    by (rule map_idI) (rule foldl_upsert_fixed)
  finally show ?thesis .
qed

section \<open>The loaders on the table of claims\<close>

lemma run_accepted:
  "fst (run f cl cnt rows cs n) = foldl (\<lambda>cs c. upsert c cs) cs (accepted f cl rows)"
  by (induction rows arbitrary: cs n) (auto split: sum.splits)

lemma run_distinct:
  "distinct (map claim_id cs) \<Longrightarrow> distinct (map claim_id (fst (run f cl cnt rows cs n)))"
  by (induction rows arbitrary: cs n) (auto split: sum.splits intro: upsert_distinct)

lemma run_idem:
  "fst (run f cl cnt rows (fst (run f cl cnt rows cs n)) m) = fst (run f cl cnt rows cs n)"
  by (simp add: run_accepted foldl_upsert_idem)

lemma count_created_simps:
  "count_created True n = n + 1" "count_created False n = n"
  by (simp_all add: count_created_def)


lemma run_no_creation:
  "claim_id ` set (accepted f cl rows) \<subseteq> claim_id ` set cs \<Longrightarrow>
   snd (run f cl count_created rows cs n) = Inr m \<Longrightarrow> m = n"
proof (induction rows arbitrary: cs n)
  case Nil
  then show ?case by simp
next
  case (Cons r rows)
  show ?case
  proof (cases "f r")
    case (Inl e)
    with Cons show ?thesis by (auto split: if_splits)
  next
    case (Inr c)
    with Cons.prems have in_cs: "claim_id c \<in> claim_id ` set cs"
      and rest: "claim_id ` set (accepted f cl rows) \<subseteq> claim_id ` set (upsert c cs)"
      by (auto simp: upsert_ids)
    from Cons.prems(2) Inr in_cs have "snd (run f cl count_created rows (upsert c cs) n) = Inr m"
      by (simp add: count_created_simps)
    from Cons.IH [OF rest this] show ?thesis .
  qed
qed

lemma for_rows_run:
  assumes step: "\<And>s row n. distinct (map claim_id (claims s)) \<Longrightarrow>
      body s row n =
        (case f row of
           Inl e \<Rightarrow> if caught cl e then (s, Inr n) else (s, Inl e)
         | Inr c \<Rightarrow> (s\<lparr>claims := upsert c (claims s)\<rparr>,
                     Inr (cnt (claim_id c \<notin> set (map claim_id (claims s))) n)))"
  shows "distinct (map claim_id (claims s)) \<Longrightarrow>
     for_rows body rows s n =
       (s\<lparr>claims := fst (run f cl cnt rows (claims s) n)\<rparr>, snd (run f cl cnt rows (claims s) n))"
proof (induction rows arbitrary: s n)
  case Nil
  then show ?case by simp
next
  case (Cons row rows)
  note d = Cons.prems
  show ?case
  proof (cases "f row")
    case (Inl e)
    show ?thesis
    proof (cases "caught cl e")
      case True
      with Inl step [OF d, of row n] Cons.IH [OF d, of n] show ?thesis by simp
    next
      case False
      with Inl step [OF d, of row n] show ?thesis by simp
    qed
  next
    case (Inr c)
    let ?s' = "s\<lparr>claims := upsert c (claims s)\<rparr>"
    have d': "distinct (map claim_id (claims ?s'))" using d by (simp add: upsert_distinct)
    from Inr step [OF d, of row n] Cons.IH [OF d'] show ?thesis by simp
  qed
qed

lemma load_claims_body_step:
  assumes "distinct (map claim_id (claims s))"
  shows "load_claims_body L s row n =
     (case cli_row_claim L row of
        Inl e \<Rightarrow> if caught [ValueError, InvalidOperation, KeyError] e then (s, Inr n) else (s, Inl e)
      | Inr c \<Rightarrow> (s\<lparr>claims := upsert c (claims s)\<rparr>,
                  Inr (count_created (claim_id c \<notin> set (map claim_id (claims s))) n)))"
  by (cases "cli_claim_args L row"; cases "full_clean L (projr (cli_claim_args L row))")
     (simp_all add: load_claims_body_def cli_row_claim_def bind_exn_def try_except_def
        update_or_create_distinct [OF assms] count_created_def)

lemma process_claims_body_step:
  assumes "distinct (map claim_id (claims s))"
  shows "process_claims_body L s row n =
     (case web_row_claim L row of
        Inl e \<Rightarrow> if caught [ValueError, KeyError] e then (s, Inr n) else (s, Inl e)
      | Inr c \<Rightarrow> (s\<lparr>claims := upsert c (claims s)\<rparr>,
                  Inr (count_all (claim_id c \<notin> set (map claim_id (claims s))) n)))"
  by (cases "web_claim_args L row"; cases "full_clean L (projr (web_claim_args L row))")
     (simp_all add: process_claims_body_def web_row_claim_def bind_exn_def try_except_def
        update_or_create_distinct [OF assms] count_all_def)

lemma Detail_update_or_create_claims:
  "claims (fst (Detail_update_or_create s d)) = claims s"
  by (simp add: Detail_update_or_create_def split: list.splits)

lemma try_except_claims:
  "claims (fst r) = cs \<Longrightarrow> claims (fst (try_except r cl n)) = cs"
  by (cases r) (auto simp: try_except_def split: sum.splits)

lemma load_claim_details_body_claims:
  "claims (fst (load_claim_details_body s row n)) = claims s"
  unfolding load_claim_details_body_def
  by (rule try_except_claims)
     (auto simp: Detail_update_or_create_claims split: sum.splits prod.splits
        dest: arg_cong [where f = "\<lambda>p. claims (fst p)"])

lemma process_details_body_claims:
  "claims (fst (process_details_body s row n)) = claims s"
  unfolding process_details_body_def
  by (rule try_except_claims)
     (auto simp: Detail_update_or_create_claims split: sum.splits prod.splits
        dest: arg_cong [where f = "\<lambda>p. claims (fst p)"])

lemma for_rows_claims:
  assumes "\<And>s row n. claims (fst (body s row n)) = claims s"
  shows "claims (fst (for_rows body rows s n)) = claims s"
proof (induction rows arbitrary: s n)
  case Nil
  then show ?case by simp
next
  case (Cons row rows)
  obtain s' r where b: "body s row n = (s', r)" by (cases "body s row n")
  with assms [of s row n] have c: "claims s' = claims s" by simp
  show ?case
  proof (cases r)
    case (Inl e)
    with b c show ?thesis by simp
  next
    case (Inr n')
    with b c Cons.IH [of s' n'] show ?thesis by simp
  qed
qed

lemma load_claims_run:
  assumes "distinct (map claim_id (claims s))" "fs p = Some (Some text)"
  shows "load_claims L fs p s =
     (s\<lparr>claims := fst (cli_claims_effect L text (claims s))\<rparr>,
      snd (cli_claims_effect L text (claims s)))"
  using assms
  by (simp add: load_claims_def open_utf8_def cli_claims_effect_def cli_rows_def
      for_rows_run [where body = "load_claims_body L", OF load_claims_body_step])

lemma load_claim_details_claims:
  "claims (fst (load_claim_details L fs p s)) = claims s"
  by (simp add: load_claim_details_def for_rows_claims load_claim_details_body_claims
      split: sum.splits)

lemma process_details_file_claims:
  "claims (fst (process_details_file L f s)) = claims s"
  by (simp add: process_details_file_def for_rows_claims process_details_body_claims
      split: option.splits list.splits)

section \<open>Importing twice in append mode\<close>

lemma handle_cases:
  assumes d: "distinct (map claim_id (claims (purged mode s)))"
  shows "handle L fs cf df mode s = (s, Inl CommandError) \<or>
     (\<exists>src s' n m. fs cf = Some (Some src) \<and>
        handle L fs cf df mode s = (s', Inr (n, m)) \<and>
        claims s' = fst (cli_claims_effect L src (claims (purged mode s))) \<and>
        snd (cli_claims_effect L src (claims (purged mode s))) = Inr n)"
proof (cases "fs cf")
  case None
  then show ?thesis by (simp add: handle_def path_exists_def)
next
  case (Some content)
  show ?thesis
  proof (cases content)
    case None
    with Some show ?thesis
      by (simp add: handle_def atomic_def handle_body_def load_claims_def open_utf8_def)
  next
    case (Some src)
    with \<open>fs cf = Some content\<close> have fl: "fs cf = Some (Some src)" by simp
    let ?s0 = "purged mode s"
    let ?s1 = "?s0\<lparr>claims := fst (cli_claims_effect L src (claims ?s0))\<rparr>"
    have lc: "load_claims L fs cf ?s0 = (?s1, snd (cli_claims_effect L src (claims ?s0)))"
      using d fl by (rule load_claims_run)
    obtain s2 r2 where ld: "load_claim_details L fs df ?s1 = (s2, r2)"
      by (cases "load_claim_details L fs df ?s1")
    with load_claim_details_claims [of L fs df ?s1]
    have c2: "claims s2 = fst (cli_claims_effect L src (claims ?s0))" by simp
    have hb: "handle_body L fs cf df mode s =
        (case load_claims L fs cf ?s0 of
           (s1, Inl e) \<Rightarrow> (s1, Inl e)
         | (s1, Inr claims_count) \<Rightarrow>
             (case load_claim_details L fs df s1 of
                (s2, Inl e) \<Rightarrow> (s2, Inl e)
              | (s2, Inr details_count) \<Rightarrow>
                  (s2\<lparr>uploads := uploads s2 @
                       [\<lparr>upload_type = (if mode = ''overwrite'' then ''overwrite'' else ''append''),
                         file_name = basename cf @ '', '' @ basename df,
                         records_processed = claims_count, upload_user = None,
                         upload_notes = (claims_count, details_count)\<rparr>]\<rparr>,
                   Inr (claims_count, details_count))))"
      unfolding handle_body_def purged_def Let_def by (rule refl)
    show ?thesis
    proof (cases "snd (cli_claims_effect L src (claims ?s0))")
      case (Inl e)
      with lc fl show ?thesis
        by (simp add: handle_def atomic_def hb path_exists_def)
    next
      case (Inr n)
      show ?thesis
      proof (cases r2)
        case (Inl e)
        with lc ld Inr fl show ?thesis
          by (simp add: handle_def atomic_def hb path_exists_def)
      next
        case (Inr m)
        with lc ld c2 \<open>snd (cli_claims_effect L src (claims ?s0)) = Inr n\<close> fl show ?thesis
          by (simp add: handle_def atomic_def hb path_exists_def)
      qed
    qed
  qed
qed

lemma handle_append_cases:
  assumes d: "distinct (map claim_id (claims s))"
  shows "handle L fs cf df ''append'' s = (s, Inl CommandError) \<or>
     (\<exists>src s' n m. fs cf = Some (Some src) \<and>
        handle L fs cf df ''append'' s = (s', Inr (n, m)) \<and>
        claims s' = fst (cli_claims_effect L src (claims s)) \<and>
        snd (cli_claims_effect L src (claims s)) = Inr n)"
  using handle_cases [of "''append''" s L fs cf df] d by (simp add: purged_def)

lemma cli_claims_effect_idem:
  "fst (cli_claims_effect L text (fst (cli_claims_effect L text cs))) =
   fst (cli_claims_effect L text cs)"
  by (simp add: cli_claims_effect_def run_idem)

lemma cli_claims_effect_distinct:
  "distinct (map claim_id cs) \<Longrightarrow> distinct (map claim_id (fst (cli_claims_effect L text cs)))"
  by (simp add: cli_claims_effect_def run_distinct)

lemma cli_claims_effect_again:
  "snd (cli_claims_effect L text (fst (cli_claims_effect L text cs))) = Inr n \<Longrightarrow> n = 0"
proof -
  let ?f = "cli_row_claim L" and ?cl = "[ValueError, InvalidOperation, KeyError]"
  let ?rows = "cli_rows L text"
  assume a: "snd (cli_claims_effect L text (fst (cli_claims_effect L text cs))) = Inr n"
  have sub: "claim_id ` set (accepted ?f ?cl ?rows) \<subseteq>
      claim_id ` set (fst (run ?f ?cl count_created ?rows cs 0))"
    by (simp add: run_accepted foldl_upsert_ids)
  from a show "n = 0"
    unfolding cli_claims_effect_def by (rule run_no_creation [OF sub])
qed

lemma handle_append_twice:
  assumes d: "distinct (map claim_id (claims s))"
  shows "claims (fst (handle L fs cf df ''append'' (fst (handle L fs cf df ''append'' s)))) =
         claims (fst (handle L fs cf df ''append'' s))"
    and "snd (handle L fs cf df ''append'' (fst (handle L fs cf df ''append'' s))) = Inr (n, m)
         \<Longrightarrow> n = 0"
proof -
  let ?h = "handle L fs cf df ''append''"
  have "claims (fst (?h (fst (?h s)))) = claims (fst (?h s)) \<and>
        (snd (?h (fst (?h s))) = Inr (n, m) \<longrightarrow> n = 0)"
    using handle_append_cases [OF d, of L fs cf df]
  proof
    assume "?h s = (s, Inl CommandError)"
    then show ?thesis by simp
  next
    assume "\<exists>src s' n m. fs cf = Some (Some src) \<and> ?h s = (s', Inr (n, m)) \<and>
        claims s' = fst (cli_claims_effect L src (claims s)) \<and>
        snd (cli_claims_effect L src (claims s)) = Inr n"
    then obtain src s1 n1 m1 where fl: "fs cf = Some (Some src)"
      and h1: "?h s = (s1, Inr (n1, m1))"
      and c1: "claims s1 = fst (cli_claims_effect L src (claims s))" by blast
    have d1: "distinct (map claim_id (claims s1))"
      using d by (simp add: c1 cli_claims_effect_distinct)
    from handle_append_cases [OF d1, of L fs cf df] show ?thesis
    proof
      assume "?h s1 = (s1, Inl CommandError)"
      with h1 show ?thesis by simp
    next
      assume "\<exists>src s' n m. fs cf = Some (Some src) \<and> ?h s1 = (s', Inr (n, m)) \<and>
        claims s' = fst (cli_claims_effect L src (claims s1)) \<and>
        snd (cli_claims_effect L src (claims s1)) = Inr n"
      then obtain src' s2 n2 m2 where fl': "fs cf = Some (Some src')"
        and h2: "?h s1 = (s2, Inr (n2, m2))"
        and c2: "claims s2 = fst (cli_claims_effect L src' (claims s1))"
        and r2: "snd (cli_claims_effect L src' (claims s1)) = Inr n2" by blast
      from fl fl' have [simp]: "src' = src" by simp
      from r2 have "n2 = 0" by (simp add: c1 cli_claims_effect_again)
      with h1 h2 c1 c2 show ?thesis by (simp add: cli_claims_effect_idem)
    qed
  qed
  then show "claims (fst (?h (fst (?h s)))) = claims (fst (?h s))"
    and "snd (?h (fst (?h s))) = Inr (n, m) \<Longrightarrow> n = 0" by simp_all
qed

lemma process_claims_file_run:
  assumes "distinct (map claim_id (claims (web_purged mode s)))" "uf_content f = Some src"
  shows "process_claims_file L f mode s =
     ((web_purged mode s)\<lparr>claims := fst (web_claims_effect L src (claims (web_purged mode s)))\<rparr>,
      snd (web_claims_effect L src (claims (web_purged mode s))))"
proof (cases "splitlines src")
  case Nil
  with assms show ?thesis
    by (simp add: process_claims_file_def web_claims_effect_def web_rows_def web_purged_def)
next
  case (Cons first_line rest)
  with assms show ?thesis
    by (simp add: process_claims_file_def web_claims_effect_def web_rows_def Let_def
        web_purged_def [symmetric]
        for_rows_run [where body = "process_claims_body L", OF process_claims_body_step])
qed

lemma web_claims_effect_idem:
  "fst (web_claims_effect L src (fst (web_claims_effect L src cs))) =
   fst (web_claims_effect L src cs)"
  by (simp add: web_claims_effect_def run_idem)

lemma web_claims_effect_distinct:
  "distinct (map claim_id cs) \<Longrightarrow> distinct (map claim_id (fst (web_claims_effect L src cs)))"
  by (simp add: web_claims_effect_def run_distinct)

lemma post_claims_effect_idem:
  "post_claims_effect L request (post_claims_effect L request cs) = post_claims_effect L request cs"
  by (simp add: post_claims_effect_def web_claims_effect_idem split: option.splits)

lemma post_claims_effect_distinct:
  "distinct (map claim_id cs) \<Longrightarrow> distinct (map claim_id (post_claims_effect L request cs))"
  by (simp add: post_claims_effect_def web_claims_effect_distinct split: option.splits)

lemma post_append_claims:
  assumes d: "distinct (map claim_id (claims s))"
    and m: "get_default (POST request) ''mode'' ''append'' \<noteq> ''overwrite''"
  shows "claims (fst (post L request s)) = post_claims_effect L request (claims s)"
proof (cases "FILES request ''claims_file''")
  case None
  then show ?thesis by (simp add: post_def post_claims_effect_def)
next
  case cf: (Some claims_file)
  show ?thesis
  proof (cases "FILES request ''details_file''")
    case None
    with cf show ?thesis by (simp add: post_def post_claims_effect_def)
  next
    case df: (Some details_file)
    show ?thesis
    proof (cases "uf_name claims_file = [] \<or> uf_name details_file = []")
      case True
      with cf df show ?thesis by (auto simp: post_def post_claims_effect_def)
    next
      case named: False
      show ?thesis
      proof (cases "uf_content claims_file")
        case None
        with cf df named m show ?thesis
          by (simp add: post_def post_claims_effect_def process_claims_file_def Let_def)
      next
        case (Some src)
        let ?s1 = "s\<lparr>claims := fst (web_claims_effect L src (claims s))\<rparr>"
        have pc: "process_claims_file L claims_file
            (get_default (POST request) ''mode'' ''append'') s =
            (?s1, snd (web_claims_effect L src (claims s)))"
          using process_claims_file_run [of "get_default (POST request) ''mode'' ''append''" s
              claims_file src L] d m Some
          by (simp add: web_purged_def)
        obtain s2 r2 where pd: "process_details_file L details_file ?s1 = (s2, r2)"
          by (cases "process_details_file L details_file ?s1")
        with process_details_file_claims [of L details_file ?s1]
        have c2: "claims s2 = fst (web_claims_effect L src (claims s))" by simp
        from cf df named Some pc pd c2 show ?thesis
          by (simp add: post_def post_claims_effect_def Let_def split: sum.splits)
      qed
    qed
  qed
qed

lemma post_append_twice:
  assumes d: "distinct (map claim_id (claims s))"
    and m: "get_default (POST request) ''mode'' ''append'' \<noteq> ''overwrite''"
  shows "claims (fst (post L request (fst (post L request s)))) = claims (fst (post L request s))"
proof -
  have d1: "distinct (map claim_id (claims (fst (post L request s))))"
    by (simp add: post_append_claims [OF d m] post_claims_effect_distinct d)
  show ?thesis
    by (simp add: post_append_claims [OF d1 m] post_append_claims [OF d m] post_claims_effect_idem)
qed

lemma ex_handle_once:
  "handle plain ex_fs ''claims.csv'' ''details.csv'' ''append'' empty_db = (ex_loaded, Inr (1, 1))"
  by (simp add: code_defs plain_defs ex_defs ex_loaded_def)

lemma ex_handle_again:
  "handle plain ex_fs ''claims.csv'' ''details.csv'' ''append'' ex_loaded =
     (ex_loaded\<lparr>uploads := uploads ex_loaded @
        [\<lparr>upload_type = ''append'', file_name = ''claims.csv, details.csv'',
          records_processed = 0, upload_user = None, upload_notes = (0, 0)\<rparr>]\<rparr>,
      Inr (0, 0))"
  by (simp add: code_defs plain_defs ex_defs ex_loaded_def)

lemma ex_post_once:
  "post plain (ex_upload ''append'' (Some ex_claims) (Some ex_details)) empty_db =
     (ex_uploaded, Successfully_uploaded 1 1)"
  by (simp add: code_defs plain_defs ex_defs ex_uploaded_def)

lemma ex_post_again:
  "post plain (ex_upload ''append'' (Some ex_claims) (Some ex_details)) ex_uploaded =
     (ex_uploaded\<lparr>uploads := uploads ex_uploaded @
        [\<lparr>upload_type = ''append'', file_name = ''claims.csv, details.csv'',
          records_processed = 1, upload_user = Some ''analyst'', upload_notes = (1, 1)\<rparr>]\<rparr>,
      Successfully_uploaded 1 1)"
  by (simp add: code_defs plain_defs ex_defs ex_uploaded_def)

lemma ex_loaded_claims: "claims ex_loaded = [ex_claim 60]" "claims ex_uploaded = [ex_claim 60]"
  by (simp_all add: ex_loaded_def ex_uploaded_def)

text \<open>
  C4. In a store whose claim ids are distinct, importing the same sources twice in append
  mode leaves the table of claims as one import leaves it, by the command and by the
  upload view (any mode other than overwrite appends there); the second run of the command,
  when it succeeds, reports no created claim.
\<close>

theorem append_import_idempotent:
  assumes "distinct (map claim_id (claims s))"
    and "get_default (POST request) ''mode'' ''append'' \<noteq> ''overwrite''"
  shows "claims (fst (handle L fs cf df ''append'' (fst (handle L fs cf df ''append'' s)))) =
           claims (fst (handle L fs cf df ''append'' s)) \<and>
         (\<forall>n m. snd (handle L fs cf df ''append'' (fst (handle L fs cf df ''append'' s))) =
                  Inr (n, m) \<longrightarrow> n = 0) \<and>
         claims (fst (post L request (fst (post L request s)))) =
           claims (fst (post L request s))"
  using handle_append_twice [OF assms(1)] post_append_twice [OF assms] by blast

theorem append_import_idempotent_witness:
  "distinct (map claim_id (claims empty_db)) \<and>
   get_default (POST (ex_upload ''append'' (Some ex_claims) (Some ex_details))) ''mode'' ''append''
     \<noteq> ''overwrite'' \<and>
   claims (fst (handle plain ex_fs ''claims.csv'' ''details.csv'' ''append'' empty_db)) =
     [ex_claim 60] \<and>
   claims (fst (handle plain ex_fs ''claims.csv'' ''details.csv'' ''append''
     (fst (handle plain ex_fs ''claims.csv'' ''details.csv'' ''append'' empty_db)))) =
     [ex_claim 60] \<and>
   snd (handle plain ex_fs ''claims.csv'' ''details.csv'' ''append''
     (fst (handle plain ex_fs ''claims.csv'' ''details.csv'' ''append'' empty_db))) = Inr (0, 0) \<and>
   claims (fst (post plain (ex_upload ''append'' (Some ex_claims) (Some ex_details))
     (fst (post plain (ex_upload ''append'' (Some ex_claims) (Some ex_details)) empty_db)))) =
     [ex_claim 60]"
proof -
  have h1: "distinct (map claim_id (claims empty_db))" by (simp add: empty_db_def)
  have h2: "get_default (POST (ex_upload ''append'' (Some ex_claims) (Some ex_details)))
      ''mode'' ''append'' \<noteq> ''overwrite''"
    by (simp add: ex_upload_def get_default_def)
  from append_import_idempotent [OF h1 h2, of plain ex_fs "''claims.csv''" "''details.csv''"]
  show ?thesis
    using h1 h2
    by (simp add: ex_handle_once ex_handle_again ex_post_once ex_post_again ex_loaded_claims)
qed

section \<open>Detail rows without a claim\<close>

lemma same_flag_key_iff: "same_flag_key f g = (flag_key f = flag_key g)"
  by (auto simp: same_flag_key_def flag_key_def)

lemma try_except_skip:
  "caught cl e \<Longrightarrow> try_except (s, Inl e) cl n = (s, Inr n)"
  by (simp add: try_except_def)

lemma orphan_cli:
  assumes "row ''claim_id'' = Some k" "k \<notin> set (map claim_id (claims s))"
  shows "load_claim_details_body s row n = (s, Inr n)"
  using assms
  by (simp add: load_claim_details_body_def getitem_def Claim_get_absent caught_def
      isinstance_def try_except_def)

lemma orphan_web:
  assumes "row ''claim_id'' = Some k" "k \<notin> set (map claim_id (claims s))"
  shows "process_details_body s row n = (s, Inr n)"
  using assms
  by (simp add: process_details_body_def getitem_def Claim_get_absent caught_def
      isinstance_def try_except_def)

lemma for_rows_skip:
  assumes keep: "\<And>s row n. claims (fst (body s row n)) = claims s"
    and skip: "\<And>s n. claims s = cs \<Longrightarrow> body s row n = (s, Inr n)"
  shows "claims s = cs \<Longrightarrow>
     for_rows body (before @ row # rest) s n = for_rows body (before @ rest) s n"
proof (induction before arbitrary: s n)
  case Nil
  then show ?case by (simp add: skip)
next
  case (Cons r before)
  obtain s' res where b: "body s r n = (s', res)" by (cases "body s r n")
  with keep [of s r n] Cons.prems have c: "claims s' = cs" by simp
  show ?case
  proof (cases res)
    case (Inl e)
    with b show ?thesis by simp
  next
    case (Inr n')
    with b Cons.IH [OF c, of n'] show ?thesis by simp
  qed
qed

text \<open>
  C6. A details row whose \<open>claim_id\<close> is that of no stored claim leaves the store and
  the count as they were in the loop body of either loader: no \<open>ClaimDetail\<close> is
  created and no exception leaves the body. The loop over a source that holds such a row
  at any place ends as the loop over the source without the row.
\<close>

theorem orphan_detail_row_rejected:
  assumes "row ''claim_id'' = Some k" and "k \<notin> set (map claim_id (claims s))"
  shows "load_claim_details_body s row n = (s, Inr n) \<and>
         process_details_body s row n = (s, Inr n) \<and>
         for_rows load_claim_details_body (before @ row # rest) s n =
           for_rows load_claim_details_body (before @ rest) s n \<and>
         for_rows process_details_body (before @ row # rest) s n =
           for_rows process_details_body (before @ rest) s n"
proof -
  have cli: "for_rows load_claim_details_body (before @ row # rest) s n =
           for_rows load_claim_details_body (before @ rest) s n"
    using assms
    by (intro for_rows_skip [where cs = "claims s"])
       (simp_all add: load_claim_details_body_claims orphan_cli [where k = k])
  have web: "for_rows process_details_body (before @ row # rest) s n =
           for_rows process_details_body (before @ rest) s n"
    using assms
    by (intro for_rows_skip [where cs = "claims s"])
       (simp_all add: process_details_body_claims orphan_web [where k = k])
  from cli web assms show ?thesis
    by (simp add: orphan_cli [where k = k] orphan_web [where k = k])
qed

theorem orphan_detail_row_rejected_witness:
  "[''claim_id'' \<mapsto> ''C9'', ''denial_reason'' \<mapsto> ''stray'', ''cpt_codes'' \<mapsto> ''99000''] ''claim_id''
     = Some ''C9'' \<and>
   ''C9'' \<notin> set (map claim_id (claims ex_db)) \<and>
   load_claim_details_body ex_db
     [''claim_id'' \<mapsto> ''C9'', ''denial_reason'' \<mapsto> ''stray'', ''cpt_codes'' \<mapsto> ''99000''] 0
     = (ex_db, Inr 0) \<and>
   process_details_body ex_db
     [''claim_id'' \<mapsto> ''C9'', ''denial_reason'' \<mapsto> ''stray'', ''cpt_codes'' \<mapsto> ''99000''] 0
     = (ex_db, Inr 0) \<and>
   for_rows process_details_body
     ([] @ [''claim_id'' \<mapsto> ''C9'', ''denial_reason'' \<mapsto> ''stray'', ''cpt_codes'' \<mapsto> ''99000'']
        # [[''claim_id'' \<mapsto> ''C1'', ''denial_reason'' \<mapsto> ''missing auth'',
            ''cpt_codes'' \<mapsto> ''99213,99214'']]) ex_db 0
     = (ex_db\<lparr>details := [ex_detail]\<rparr>, Inr 1)"
proof -
  let ?row = "[''claim_id'' \<mapsto> ''C9'', ''denial_reason'' \<mapsto> ''stray'', ''cpt_codes'' \<mapsto> ''99000'']"
  let ?row1 = "[''claim_id'' \<mapsto> ''C1'', ''denial_reason'' \<mapsto> ''missing auth'',
            ''cpt_codes'' \<mapsto> ''99213,99214'']"
  have h1: "?row ''claim_id'' = Some ''C9''" by simp
  have h2: "''C9'' \<notin> set (map claim_id (claims ex_db))" by (simp add: ex_db_def ex_claim_def)
  have e: "for_rows process_details_body ([] @ [?row1]) ex_db 0 = (ex_db\<lparr>details := [ex_detail]\<rparr>, Inr 1)"
    by (simp add: code_defs ex_defs)
  from orphan_detail_row_rejected [where row = ?row and k = "''C9''" and s = ex_db
      and n = 0 and before = "[]" and rest = "[?row1]", OF h1 h2] h1 h2 e
  show ?thesis by simp
qed

section \<open>Flags\<close>

lemma flag_filter_absent:
  "flag_key key \<notin> set (map flag_key fs) \<Longrightarrow> filter (same_flag_key key) fs = []"
  by (auto simp: filter_empty_conv same_flag_key_iff)

lemma flag_filter_present:
  "distinct (map flag_key fs) \<Longrightarrow> flag_key key \<in> set (map flag_key fs) \<Longrightarrow>
   \<exists>old. filter (same_flag_key key) fs = [old]"
proof (induction fs)
  case Nil
  then show ?case by simp
next
  case (Cons a fs)
  show ?case
  proof (cases "flag_key a = flag_key key")
    case True
    with Cons.prems have "flag_key key \<notin> set (map flag_key fs)" by auto
    then have none: "filter (same_flag_key key) fs = []" by (rule flag_filter_absent)
    from True have "same_flag_key key a" by (simp add: same_flag_key_iff)
    with none show ?thesis by simp
  next
    case False
    then have "\<not> same_flag_key key a" by (simp add: same_flag_key_iff)
    with False Cons show ?thesis by auto
  qed
qed

lemma reactivate_keys:
  "map flag_key (map (\<lambda>f. if same_flag_key key f then f\<lparr>is_active := True, reason := r\<rparr> else f) fs)
   = map flag_key fs"
  by (induction fs) (simp_all add: flag_key_def)

lemma Claim_get_id: "Claim_get s k = Inr c \<Longrightarrow> claim_id c = k"
proof -
  assume a: "Claim_get s k = Inr c"
  then have "filter (\<lambda>c. claim_id c = k) (claims s) = [c]"
    by (auto simp: Claim_get_def split: list.splits)
  then have "c \<in> set (filter (\<lambda>c. claim_id c = k) (claims s))" by simp
  then show ?thesis by simp
qed

lemma get_object_or_404_id: "get_object_or_404 s k = Inr c \<Longrightarrow> claim_id c = k"
  by (auto simp: get_object_or_404_def split: sum.splits if_splits dest: Claim_get_id)

lemma add_flag_post:
  assumes d: "distinct (map flag_key (flags s))"
    and p: "req_method request = ''POST''"
    and c: "get_object_or_404 s cid = Inr c"
  shows "add_flag_htmx request cid s =
     (if flag_key (posted_flag request cid) \<in> set (map flag_key (flags s))
      then s\<lparr>flags := map (\<lambda>f. if flag_key f = flag_key (posted_flag request cid)
                 then f\<lparr>is_active := True, reason := get_default (POST request) ''reason'' []\<rparr>
                 else f) (flags s)\<rparr>
      else s\<lparr>flags := flags s @ [posted_flag request cid]\<rparr>,
      Inr ''claims/partials/notes_section.html'')"
proof -
  let ?key = "posted_flag request cid"
  from c have id: "claim_id c = cid" by (rule get_object_or_404_id)
  show ?thesis
  proof (cases "flag_key ?key \<in> set (map flag_key (flags s))")
    case True
    from flag_filter_present [OF d True] obtain old where
      "filter (same_flag_key ?key) (flags s) = [old]" by blast
    with True p c id show ?thesis
      by (simp add: add_flag_htmx_def Flag_get_or_create_def Let_def posted_flag_def [symmetric]
          same_flag_key_iff eq_commute [of "flag_key (posted_flag request cid)"])
  next
    case False
    then have "filter (same_flag_key ?key) (flags s) = []" by (rule flag_filter_absent)
    with False p c id show ?thesis
      by (simp add: add_flag_htmx_def Flag_get_or_create_def Let_def posted_flag_def [symmetric])
  qed
qed

lemma add_flag_not_post:
  "req_method request \<noteq> ''POST'' \<Longrightarrow> fst (add_flag_htmx request cid s) = s"
  by (auto simp: add_flag_htmx_def split: sum.splits)

lemma add_flag_no_claim:
  "get_object_or_404 s cid = Inl e \<Longrightarrow> fst (add_flag_htmx request cid s) = s"
  by (auto simp: add_flag_htmx_def split: sum.splits)

text \<open>
  C9. \<open>add_flag_htmx\<close> keeps the keys (claim, user, flag type) of the stored flags
  distinct. A POST for a key that has a flag sets that flag active with the posted reason
  and adds no flag; a POST for a key that has none adds the one flag posted.
\<close>

theorem add_flag_keeps_one_flag_per_key:
  assumes "distinct (map flag_key (flags s))"
  shows "distinct (map flag_key (flags (fst (add_flag_htmx request cid s)))) \<and>
    (req_method request = ''POST'' \<and> get_object_or_404 s cid = Inr c \<and>
     flag_key (posted_flag request cid) \<in> set (map flag_key (flags s)) \<longrightarrow>
       flags (fst (add_flag_htmx request cid s)) =
         map (\<lambda>f. if flag_key f = flag_key (posted_flag request cid)
                  then f\<lparr>is_active := True, reason := get_default (POST request) ''reason'' []\<rparr>
                  else f) (flags s)) \<and>
    (req_method request = ''POST'' \<and> get_object_or_404 s cid = Inr c \<and>
     flag_key (posted_flag request cid) \<notin> set (map flag_key (flags s)) \<longrightarrow>
       flags (fst (add_flag_htmx request cid s)) = flags s @ [posted_flag request cid])"
proof -
  have upd: "map flag_key (map (\<lambda>f. if flag_key f = k then f\<lparr>is_active := True, reason := r\<rparr> else f) fs)
      = map flag_key fs" for k r fs
    by (induction fs) (simp_all add: flag_key_def)
  have dist: "distinct (map flag_key (flags (fst (add_flag_htmx request cid s))))"
  proof (cases "req_method request = ''POST''")
    case False
    then show ?thesis using assms by (simp add: add_flag_not_post)
  next
    case True
    show ?thesis
    proof (cases "get_object_or_404 s cid")
      case (Inl e)
      then show ?thesis using assms by (simp add: add_flag_no_claim)
    next
      case (Inr c')
      from add_flag_post [OF assms True Inr] assms show ?thesis
        by (auto simp: upd simp del: map_map)
    qed
  qed
  show ?thesis
    using dist add_flag_post [OF assms, of request cid c] by simp
qed

theorem add_flag_keeps_one_flag_per_key_witness:
  "distinct (map flag_key (flags ex_db)) \<and>
   flags (fst (add_flag_htmx (ex_flag_request ''review'' ''again'') ''C1'' ex_db)) =
     [\<lparr>f_claim = ''C1'', f_user = ''analyst'', flag_type = ''review'', reason = ''again'',
       is_active = True\<rparr>] \<and>
   flags (fst (add_flag_htmx (ex_flag_request ''urgent'' ''late'') ''C1'' ex_db)) =
     [\<lparr>f_claim = ''C1'', f_user = ''analyst'', flag_type = ''review'', reason = ''check'',
       is_active = False\<rparr>,
      \<lparr>f_claim = ''C1'', f_user = ''analyst'', flag_type = ''urgent'', reason = ''late'',
       is_active = True\<rparr>]"
proof -
  have d: "distinct (map flag_key (flags ex_db))" by (simp add: ex_db_def flag_key_def)
  have g: "get_object_or_404 ex_db ''C1'' = Inr (ex_claim 50)"
    by (simp add: get_object_or_404_def Claim_get_def ex_db_def ex_claim_def)
  have m: "req_method (ex_flag_request ftype why) = ''POST''" for ftype why
    by (simp add: ex_flag_request_def)
  have k1: "flag_key (posted_flag (ex_flag_request ''review'' ''again'') ''C1'')
      \<in> set (map flag_key (flags ex_db))"
    by (simp add: posted_flag_def ex_flag_request_def get_default_def flag_key_def ex_db_def)
  have k2: "flag_key (posted_flag (ex_flag_request ''urgent'' ''late'') ''C1'')
      \<notin> set (map flag_key (flags ex_db))"
    by (simp add: posted_flag_def ex_flag_request_def get_default_def flag_key_def ex_db_def)
  from add_flag_keeps_one_flag_per_key [OF d, of "ex_flag_request ''review'' ''again''" "''C1''" "ex_claim 50"]
    add_flag_keeps_one_flag_per_key [OF d, of "ex_flag_request ''urgent'' ''late''" "''C1''" "ex_claim 50"]
    d g m k1 k2
  show ?thesis
    by (simp add: posted_flag_def ex_flag_request_def get_default_def flag_key_def ex_db_def)
qed

section \<open>Overwrite mode\<close>




























lemma ex_handle_empty:
  "claims (fst (handle plain ex_fs ''empty.csv'' ''details.csv'' ''overwrite'' ex_db)) = []"
  by (simp add: code_defs plain_defs ex_defs)

lemma ex_post_empty:
  "claims (fst (post plain (ex_upload ''overwrite'' (Some []) (Some ex_details)) ex_db)) = []"
  by (simp add: code_defs plain_defs ex_defs)




section \<open>Where the two import paths part\<close>

lemma full_clean_overpaid:
  assumes "billed_amount obj = Dec b" "paid_amount obj = Dec p" "b < p" "b \<noteq> 0" "p \<noteq> 0"
  shows "full_clean L obj = Inl ValidationError"
  using assms
  by (simp add: full_clean_def clean_def clean_amount_def to_python_def Let_def
      split: option.splits)

lemma clean_skips_zero_billed:
  "billed_amount obj = Dec 0 \<Longrightarrow> clean obj = Inr ()"
  by (simp add: clean_def)

lemma not_caught_validation:
  "\<not> caught [ValueError, InvalidOperation, KeyError] ValidationError"
  "\<not> caught [ValueError, KeyError] ValidationError"
  "\<not> caught [ValueError, KeyError] TypeError"
  by (simp_all add: caught_def isinstance_def)

text \<open>
  In the command's loop a row whose paid amount exceeds a billed amount other than zero
  ends the loop with \<open>ValidationError\<close>: the rows after it are not read.
\<close>

theorem overpaid_row_leaves_loop:
  assumes "distinct (map claim_id (claims s))"
    and "cli_claim_args L row = Inr obj"
    and "billed_amount obj = Dec b" and "paid_amount obj = Dec p"
    and "b < p" and "b \<noteq> 0" and "p \<noteq> 0"
  shows "for_rows (load_claims_body L) (row # rows) s n = (s, Inl ValidationError)"
proof -
  have "cli_row_claim L row = Inl ValidationError"
    using assms(2) full_clean_overpaid [OF assms(3-7)]
    by (simp add: cli_row_claim_def bind_exn_def)
  then show ?thesis
    by (simp add: load_claims_body_step [OF assms(1)] not_caught_validation)
qed

theorem overpaid_row_leaves_loop_witness:
  "distinct (map claim_id (claims empty_db)) \<and>
   for_rows (load_claims_body plain)
     ([''id'' \<mapsto> ''C2'', ''patient_name'' \<mapsto> ''John Roe'', ''billed_amount'' \<mapsto> ''50.00'',
       ''paid_amount'' \<mapsto> ''80.00'', ''status'' \<mapsto> ''Paid'', ''insurer_name'' \<mapsto> ''Acme'',
       ''discharge_date'' \<mapsto> ''2024-01-02''] # []) empty_db 0 = (empty_db, Inl ValidationError)"
proof -
  let ?row = "[''id'' \<mapsto> ''C2'', ''patient_name'' \<mapsto> ''John Roe'', ''billed_amount'' \<mapsto> ''50.00'',
       ''paid_amount'' \<mapsto> ''80.00'', ''status'' \<mapsto> ''Paid'', ''insurer_name'' \<mapsto> ''Acme'',
       ''discharge_date'' \<mapsto> ''2024-01-02'']"
  let ?obj = "\<lparr>claim_id = ''C2'', patient_name = ''John Roe'', billed_amount = Dec 50,
       paid_amount = Dec 80, status = ''Paid'', insurer_name = ''Acme'',
       discharge_date = (2024, 1, 2)\<rparr>"
  have d: "distinct (map claim_id (claims empty_db))" by (simp add: empty_db_def)
  have a: "cli_claim_args plain ?row = Inr ?obj"
    by (simp add: cli_claim_args_def bind_exn_def or_raise_def getitem_def plain_defs)
  from overpaid_row_leaves_loop [OF d a, of 50 80 "[]" 0] d show ?thesis by simp
qed

text \<open>
  The command's import is atomic: when \<open>handle\<close> ends in an error, the error is
  \<open>CommandError\<close> and the store is the one it started from.
\<close>

theorem handle_rolls_back:
  assumes "snd (handle L fs cf df mode s) = Inl e"
  shows "fst (handle L fs cf df mode s) = s \<and> e = CommandError"
  using assms
  by (auto simp: handle_def atomic_def split: if_splits prod.splits sum.splits)

theorem handle_rolls_back_witness:
  "snd (handle plain ex_fs ''overpaid.csv'' ''details.csv'' ''overwrite'' ex_db) = Inl CommandError \<and>
   fst (handle plain ex_fs ''overpaid.csv'' ''details.csv'' ''overwrite'' ex_db) = ex_db"
proof -
  have h: "snd (handle plain ex_fs ''overpaid.csv'' ''details.csv'' ''overwrite'' ex_db) =
      Inl CommandError"
    by (simp add: code_defs plain_defs ex_defs)
  from handle_rolls_back [OF h] h show ?thesis by simp
qed

text \<open>
  C1. The source \<open>overpaid.csv\<close> holds a valid row, a row billed 50.00 and paid 80.00,
  and another valid row. The \<open>ValidationError\<close> of \<open>Claim.save\<close> is none of the
  classes either loop skips: the command ends in \<open>CommandError\<close> with nothing stored,
  the upload view ends in the error message with the first row stored and the third
  never read.
\<close>

theorem overpaid_row_aborts_import:
  "handle plain ex_fs ''overpaid.csv'' ''details.csv'' ''append'' empty_db =
     (empty_db, Inl CommandError) \<and>
   post plain (ex_upload ''append'' (Some ex_claims_overpaid) (Some ex_details)) empty_db =
     (empty_db\<lparr>claims := [ex_claim 60]\<rparr>, Error_uploading ValidationError)"
  by (simp add: code_defs plain_defs ex_defs)

text \<open>
  C2. An upload in overwrite mode whose claims file is not UTF-8 text: the view has
  deleted the claims (and with them the details and flags) when decoding raises, and the
  deletion stays. The command, given the same file, leaves the store as it was.
\<close>

theorem upload_failure_keeps_purge:
  "post plain (ex_upload ''overwrite'' None (Some ex_details)) ex_db =
     (ex_db\<lparr>claims := [], details := [], flags := []\<rparr>, Error_uploading UnicodeDecodeError) \<and>
   handle plain ex_fs ''binary.csv'' ''details.csv'' ''overwrite'' ex_db =
     (ex_db, Inl CommandError)"
  by (simp add: code_defs plain_defs ex_defs)

text \<open>
  C3. A comma-delimited claims source, whose header holds no pipe: the upload view reads
  it with the comma and stores its claim; the command reads it with the pipe, finds none
  of the columns and skips the row.
\<close>

theorem command_reads_comma_file_with_pipe:
  "detect_delimiter (hd (splitlines ex_claims_comma)) = CHR '','' \<and>
   load_claims plain ex_fs ''comma.csv'' empty_db = (empty_db, Inr 0) \<and>
   process_claims_file plain \<lparr>uf_name = ''comma.csv'', uf_content = Some ex_claims_comma\<rparr>
     ''append'' empty_db = (empty_db\<lparr>claims := [ex_claim 60]\<rparr>, Inr 1)"
  by (simp add: code_defs plain_defs ex_defs)

text \<open>
  C10. The same source against the same store, which holds the claim of the source's one
  row: both loaders update the claim; the command reports 0, the upload view reports 1.
\<close>

theorem update_counted_by_upload_only:
  "load_claims plain ex_fs ''claims.csv'' ex_db = (ex_db\<lparr>claims := [ex_claim 60]\<rparr>, Inr 0) \<and>
   process_claims_file plain \<lparr>uf_name = ''claims.csv'', uf_content = Some ex_claims\<rparr>
     ''append'' ex_db = (ex_db\<lparr>claims := [ex_claim 60]\<rparr>, Inr 1)"
  by (simp add: code_defs plain_defs ex_defs)

lemma process_claims_file_delimiter:
  assumes "uf_content f = Some src" "splitlines src = first_line # rest"
  shows "process_claims_file L f mode s =
     for_rows (process_claims_body L)
       (DictReader L (if CHR ''|'' \<in> set first_line then CHR ''|'' else CHR '','') src)
       (web_purged mode s) 0"
  using assms by (simp add: process_claims_file_def detect_delimiter_def web_purged_def)

lemma process_details_file_delimiter:
  assumes "uf_content f = Some src" "splitlines src = first_line # rest"
  shows "process_details_file L f s =
     for_rows process_details_body
       (DictReader L (if CHR ''|'' \<in> set first_line then CHR ''|'' else CHR '','') src) s 0"
  using assms by (simp add: process_details_file_def detect_delimiter_def)

lemma load_claims_delimiter:
  assumes "fs p = Some (Some src)"
  shows "load_claims L fs p s = for_rows (load_claims_body L) (DictReader L (CHR ''|'') src) s 0"
    and "load_claim_details L fs p s =
       for_rows load_claim_details_body (DictReader L (CHR ''|'') src) s 0"
  using assms by (simp_all add: load_claims_def load_claim_details_def open_utf8_def)

end
